theory Spec2Isabelle
  imports Main "HOL-Library.Word"
begin

unbundle bit_operations_syntax

section \<open>The dlisio extension module: framing, record assembly, EFLR decoding\<close>

text \<open>
  The development embeds \<^verbatim>\<open>src/python/dlisio/core.cpp\<close> and, where the two files differ,
  \<^verbatim>\<open>src/python/dlisio/ext.cpp\<close>. Every C++ exception is a value of \<open>error\<close>; a place where
  the C++ leaves the behaviour undefined (an erase before the start of the vector, a read
  past the end of the payload) is the value \<open>UndefinedBehaviour\<close>, so that no theorem
  silently picks a behaviour there.
\<close>

type_synonym byte = "8 word"

datatype error =
    EofError                  \<comment> \<open>\<^verbatim>\<open>eof_error( "unexpected EOF" )\<close>\<close>
  | IoError string            \<comment> \<open>\<^verbatim>\<open>io_error\<close>\<close>
  | ValueError string         \<comment> \<open>\<^verbatim>\<open>py::value_error\<close>\<close>
  | ErrorAlreadySet           \<comment> \<open>\<^verbatim>\<open>py::error_already_set\<close>, raised when a warning is escalated\<close>
  | UnicodeDecodeError        \<comment> \<open>\<^verbatim>\<open>py::error_already_set\<close>, raised when a \<^verbatim>\<open>std::string\<close> that is not UTF-8 is made a \<^verbatim>\<open>str\<close>\<close>
  | UndefinedBehaviour        \<comment> \<open>the C++ has no defined behaviour here\<close>

subsection \<open>The C stream\<close>

text \<open>
  \<^verbatim>\<open>std::FILE\<close> opened with \<^verbatim>\<open>"rb"\<close>: the bytes of the file, the offset of the next byte to
  fetch from them, the one guaranteed slot of \<^verbatim>\<open>ungetc\<close>, and the end-of-file indicator.
\<close>

record stream =
  data :: "byte list"
  offset :: nat
  unget :: "byte option"
  eofind :: bool

text \<open>The bytes that reads will deliver from here on, in order.\<close>

definition pending :: "stream \<Rightarrow> byte list" where
  "pending fd = (case unget fd of None \<Rightarrow> [] | Some c \<Rightarrow> [c]) @ drop (offset fd) (data fd)"

text \<open>The file position indicator: a pushed-back byte counts one position back.\<close>

definition ftell :: "stream \<Rightarrow> int" where
  "ftell fd = int (offset fd) - (case unget fd of None \<Rightarrow> 0 | Some c \<Rightarrow> 1)"

text \<open>
  \<^verbatim>\<open>fgetc\<close>: \<open>None\<close> is \<^verbatim>\<open>EOF\<close>, which also sets the end-of-file indicator. The
  indicator is set only by a read that finds nothing left, and \<^verbatim>\<open>ungetc\<close> and the
  positioning functions clear it, so in every state these operations reach a set indicator
  means that nothing is pending; the reads below look at the pending bytes alone.
\<close>

definition fgetc :: "stream \<Rightarrow> byte option \<times> stream" where
  "fgetc fd =
     (case unget fd of
        Some c \<Rightarrow> (Some c, fd\<lparr>unget := None\<rparr>)
      | None \<Rightarrow>
          if offset fd < length (data fd)
          then (Some (data fd ! offset fd), fd\<lparr>offset := offset fd + 1\<rparr>)
          else (None, fd\<lparr>eofind := True\<rparr>))"

text \<open>
  \<^verbatim>\<open>ungetc\<close>: succeeds when the slot is free, and then clears the end-of-file indicator;
  \<open>None\<close> is \<^verbatim>\<open>EOF\<close>, the stream unchanged.
\<close>

definition ungetc :: "byte \<Rightarrow> stream \<Rightarrow> byte option \<times> stream" where
  "ungetc c fd =
     (case unget fd of
        None \<Rightarrow> (Some c, fd\<lparr>unget := Some c, eofind := False\<rparr>)
      | Some c' \<Rightarrow> (None, fd))"

definition feof :: "stream \<Rightarrow> bool" where
  "feof fd = eofind fd"

text \<open>
  \<^verbatim>\<open>fread( buffer, 1, nmemb, fd )\<close>: the bytes delivered (fewer than \<open>nmemb\<close> only at the end
  of the file, which sets the indicator) and the stream after.
\<close>

definition fread :: "nat \<Rightarrow> stream \<Rightarrow> byte list \<times> stream" where
  "fread nmemb fd =
     (let avail = pending fd; got = take nmemb avail;
          fromfile = length got - (case unget fd of None \<Rightarrow> 0 | Some c \<Rightarrow> 1)
      in if nmemb = 0 then ([], fd)
         else (got, fd\<lparr>offset := offset fd + fromfile, unget := None,
                       eofind := (eofind fd \<or> length avail < nmemb)\<rparr>))"

text \<open>\<^verbatim>\<open>fseek( fp, off, SEEK_CUR )\<close>: a position before the start of the file is \<^verbatim>\<open>EINVAL\<close>.\<close>

definition fseek_cur :: "int \<Rightarrow> stream \<Rightarrow> error + stream" where
  "fseek_cur off fd =
     (let target = ftell fd + off
      in if target < 0 then Inl (IoError ''Invalid argument'')
         else Inr (fd\<lparr>offset := nat target, unget := None, eofind := False\<rparr>))"

definition fgetpos :: "stream \<Rightarrow> int" where
  "fgetpos fd = ftell fd"

definition fsetpos :: "int \<Rightarrow> stream \<Rightarrow> error + stream" where
  "fsetpos p fd =
     (if p < 0 then Inl (IoError ''Invalid argument'')
      else Inr (fd\<lparr>offset := nat p, unget := None, eofind := False\<rparr>))"

subsection \<open>The file class\<close>

text \<open>
  \<^verbatim>\<open>class file\<close> owns the stream; \<^verbatim>\<open>close\<close> resets the pointer, and the conversion to
  \<^verbatim>\<open>std::FILE*\<close> raises on a closed file.
\<close>

type_synonym dfile = "stream option"

definition as_FILE :: "dfile \<Rightarrow> error + stream" where
  "as_FILE this = (case this of Some fd \<Rightarrow> Inr fd
                   | None \<Rightarrow> Inl (ValueError ''I/O operation on closed file''))"

definition close :: "dfile \<Rightarrow> dfile" where
  "close this = None"

text \<open>\<^verbatim>\<open>file::eof\<close> (core.cpp 129-139, ext.cpp 147-157).\<close>

definition eof :: "dfile \<Rightarrow> error + (bool \<times> dfile)" where
  "eof this =
     (case as_FILE this of
        Inl e \<Rightarrow> Inl e
      | Inr fd \<Rightarrow>
          (case fgetc fd of
             (None, fd1) \<Rightarrow> Inr (True, Some fd1)
           | (Some c, fd1) \<Rightarrow>
               (case ungetc c fd1 of
                  (None, fd2) \<Rightarrow> Inr (True, Some fd2)
                | (Some c', fd2) \<Rightarrow> Inr (feof fd2, Some fd2))))"

subsection \<open>Diagnostics\<close>

text \<open>
  \<^verbatim>\<open>runtime_warning\<close> hands the message to \<^verbatim>\<open>PyErr_WarnEx\<close> and raises when that reports an
  error, which is what the interpreter does when its warning filter turns the warning into
  an exception. The filter is the parameter \<open>esc\<close>; the warnings issued so far are threaded
  through as a list.
\<close>

definition runtime_warning :: "(string \<Rightarrow> bool) \<Rightarrow> string \<Rightarrow> string list \<Rightarrow> error + string list" where
  "runtime_warning esc msg ws = (if esc msg then Inl ErrorAlreadySet else Inr (ws @ [msg]))"

text \<open>\<^verbatim>\<open>std::to_string\<close> on the non-negative values it is applied to here.\<close>

fun digits :: "nat \<Rightarrow> string" where
  "digits n = (if n < 10 then [char_of (48 + n)] else digits (n div 10) @ [char_of (48 + n mod 10)])"

definition to_string :: "int \<Rightarrow> string" where
  "to_string i = (if i < 0 then CHR ''-'' # digits (nat (- i)) else digits (nat i))"

subsection \<open>Framing\<close>

text \<open>\<^verbatim>\<open>getbytes\<close>: read exactly \<open>nmemb\<close> bytes or raise.\<close>

definition getbytes :: "nat \<Rightarrow> stream \<Rightarrow> error + (byte list \<times> stream)" where
  "getbytes nmemb fd =
     (case fread nmemb fd of
        (got, fd') \<Rightarrow>
          if length got \<noteq> nmemb
          then (if feof fd' then Inl EofError else Inl (IoError ''errno''))
          else Inr (got, fd'))"

record segheader =
  seg_attrs :: byte
  seg_len :: int
  seg_type :: int

text \<open>
  Modelled from the spec: \<^verbatim>\<open>dlis_lrsh\<close> is declared in \<^verbatim>\<open>dlisio/dlisio.h\<close>, which is not among
  the sources. Section 6.1: big-endian u16 length (including the 4), u8 attributes, u8 type.
  \<open>None\<close> stands for a non-zero error code; the layout leaves no pattern to reject.
\<close>

definition dlis_lrsh :: "byte list \<Rightarrow> segheader option" where
  "dlis_lrsh buffer =
     Some \<lparr>seg_attrs = buffer ! 2,
           seg_len = 256 * uint (buffer ! 0) + uint (buffer ! 1),
           seg_type = uint (buffer ! 3)\<rparr>"

text \<open>
  Modelled from the spec: \<^verbatim>\<open>dlis_vrl\<close> is declared in \<^verbatim>\<open>dlisio/dlisio.h\<close>, which is not among
  the sources. Scenario S2: the bytes \<^verbatim>\<open>00 08 FF 01\<close> give length 8 and version 1, so the
  length is the big-endian u16 in front and the version is the last byte.
\<close>

definition dlis_vrl :: "byte list \<Rightarrow> (int \<times> int) option" where
  "dlis_vrl buffer = Some (256 * uint (buffer ! 0) + uint (buffer ! 1), uint (buffer ! 3))"

record segment_attributes =
  explicit_formatting :: int
  has_predecessor :: int
  has_successor :: int
  is_encrypted :: int
  has_encryption_packet :: int
  has_checksum :: int
  has_trailing_length :: int
  has_padding :: int

definition flag :: "byte \<Rightarrow> byte \<Rightarrow> int" where
  "flag attrs bitmask = (if attrs AND bitmask = 0 then 0 else 1)"

text \<open>
  Modelled from the spec: \<^verbatim>\<open>dlis_segment_attributes\<close> is declared in \<^verbatim>\<open>dlisio/dlisio.h\<close>,
  which is not among the sources. Section 6.1, bit order from the most significant bit:
  is_eflr, has_predecessor, has_successor, is_encrypted, has_encryption_packet,
  has_checksum, has_trailing_length, has_padding.
\<close>

definition dlis_segment_attributes :: "byte \<Rightarrow> segment_attributes" where
  "dlis_segment_attributes attrs =
     \<lparr>explicit_formatting = flag attrs 0x80,
      has_predecessor = flag attrs 0x40,
      has_successor = flag attrs 0x20,
      is_encrypted = flag attrs 0x10,
      has_encryption_packet = flag attrs 0x08,
      has_checksum = flag attrs 0x04,
      has_trailing_length = flag attrs 0x02,
      has_padding = flag attrs 0x01\<rparr>"

text \<open>\<^verbatim>\<open>segment_header\<close> (core.cpp 69-78).\<close>

definition segment_header :: "stream \<Rightarrow> error + (segheader \<times> stream)" where
  "segment_header fp =
     (case getbytes 4 fp of
        Inl e \<Rightarrow> Inl e
      | Inr (buffer, fp') \<Rightarrow>
          (case dlis_lrsh buffer of
             None \<Rightarrow> Inl (ValueError ''unable to parse logical record segment header'')
           | Some seg \<Rightarrow> Inr (seg, fp')))"

text \<open>\<^verbatim>\<open>visible_length\<close> (core.cpp 80-94): a version other than 1 only warns.\<close>

definition visible_length ::
  "(string \<Rightarrow> bool) \<Rightarrow> stream \<Rightarrow> string list \<Rightarrow> error + (int \<times> stream \<times> string list)" where
  "visible_length esc fp ws =
     (case getbytes 4 fp of
        Inl e \<Rightarrow> Inl e
      | Inr (buffer, fp') \<Rightarrow>
          (case dlis_vrl buffer of
             None \<Rightarrow> Inl (ValueError ''unable to parse visible record label'')
           | Some (len, version) \<Rightarrow>
               if version \<noteq> 1
               then (case runtime_warning esc (''VRL DLIS not v1, was '' @ to_string version) ws of
                       Inl e \<Rightarrow> Inl e
                     | Inr ws' \<Rightarrow> Inr (len, fp', ws'))
               else Inr (len, fp', ws)))"

subsection \<open>The record indexer\<close>

record bookmark =
  pos :: int
  residual :: int
  isexplicit :: int

text \<open>
  The loop of \<^verbatim>\<open>mark\<close> (core.cpp 184-218, ext.cpp 171-207), the two nested \<^verbatim>\<open>while\<close>s as one
  recursion: with \<open>remaining > 0\<close> the inner loop reads a segment, otherwise the outer loop
  reads a visible record label. A segment of length below 4 seeks backwards, so the loop
  need not end: the first argument bounds the number of headers read, and \<open>None\<close> says
  that the bound was reached.
\<close>

fun mark_loop ::
  "nat \<Rightarrow> (string \<Rightarrow> bool) \<Rightarrow> stream \<Rightarrow> int \<Rightarrow> bookmark \<Rightarrow> string list
    \<Rightarrow> (error + ((bookmark \<times> int) \<times> stream \<times> string list)) option" where
  "mark_loop 0 esc fp remaining mark ws = None"
| "mark_loop (Suc n) esc fp remaining mark ws =
     (if remaining > 0 then
        (case segment_header fp of
           Inl e \<Rightarrow> Some (Inl e)
         | Inr (seg, fp1) \<Rightarrow>
             (let remaining' = remaining - seg_len seg;
                  a = dlis_segment_attributes (seg_attrs seg);
                  mark' = mark\<lparr>isexplicit := explicit_formatting a\<rparr>
              in case fseek_cur (seg_len seg - 4) fp1 of
                   Inl e \<Rightarrow> Some (Inl e)
                 | Inr fp2 \<Rightarrow>
                     if has_successor a = 0 then Some (Inr ((mark', remaining'), fp2, ws))
                     else mark_loop n esc fp2 remaining' mark' ws))
      else
        (case visible_length esc fp ws of
           Inl e \<Rightarrow> Some (Inl e)
         | Inr (len, fp1, ws1) \<Rightarrow> mark_loop n esc fp1 (len - 4) mark ws1))"

definition mark ::
  "nat \<Rightarrow> (string \<Rightarrow> bool) \<Rightarrow> stream \<Rightarrow> int \<Rightarrow> string list
    \<Rightarrow> (error + ((bookmark \<times> int) \<times> stream \<times> string list)) option" where
  "mark n esc fp remaining ws =
     mark_loop n esc fp remaining \<lparr>pos = fgetpos fp, residual = remaining, isexplicit = 0\<rparr> ws"

text \<open>
  The segment headers that \<open>mark_loop\<close> passes from a position, in order: the chain of the
  logical record, followed over visible record labels until a segment has no successor.
\<close>

fun segment_chain ::
  "nat \<Rightarrow> (string \<Rightarrow> bool) \<Rightarrow> stream \<Rightarrow> int \<Rightarrow> string list \<Rightarrow> segheader list option" where
  "segment_chain 0 esc fp remaining ws = None"
| "segment_chain (Suc n) esc fp remaining ws =
     (if remaining > 0 then
        (case segment_header fp of
           Inl e \<Rightarrow> None
         | Inr (seg, fp1) \<Rightarrow>
             (case fseek_cur (seg_len seg - 4) fp1 of
                Inl e \<Rightarrow> None
              | Inr fp2 \<Rightarrow>
                  if has_successor (dlis_segment_attributes (seg_attrs seg)) = 0 then Some [seg]
                  else map_option ((#) seg) (segment_chain n esc fp2 (remaining - seg_len seg) ws)))
      else
        (case visible_length esc fp ws of
           Inl e \<Rightarrow> None
         | Inr (len, fp1, ws1) \<Rightarrow> segment_chain n esc fp1 (len - 4) ws1))"

subsection \<open>The record assembler\<close>

text \<open>
  \<^verbatim>\<open>cat.erase( cat.end() - k, cat.end() )\<close>: with fewer than \<open>k\<close> elements the iterator lies
  before the start of the vector.
\<close>

definition erase_tail :: "nat \<Rightarrow> byte list \<Rightarrow> error + byte list" where
  "erase_tail k cat = (if length cat < k then Inl UndefinedBehaviour else Inr (take (length cat - k) cat))"

text \<open>
  The three conditional erasures after a segment body has been appended (core.cpp 265-271,
  ext.cpp 250-256). The padding count is the last byte of the vector as it is after the
  first two erasures.
\<close>

definition strip_tail :: "segment_attributes \<Rightarrow> byte list \<Rightarrow> error + byte list" where
  "strip_tail a cat =
     (case (if has_trailing_length a \<noteq> 0 then erase_tail 2 cat else Inr cat) of
        Inl e \<Rightarrow> Inl e
      | Inr cat1 \<Rightarrow>
          (case (if has_checksum a \<noteq> 0 then erase_tail 2 cat1 else Inr cat1) of
             Inl e \<Rightarrow> Inl e
           | Inr cat2 \<Rightarrow>
               if has_padding a \<noteq> 0 then
                 (if cat2 = [] then Inl UndefinedBehaviour
                  else erase_tail (unat (last cat2)) cat2)
               else Inr cat2))"

text \<open>
  \<^verbatim>\<open>cat.resize( prevsize + seg.len ); getbytes( cat.data() + prevsize, seg.len, fp )\<close> with
  \<open>len\<close> the segment length less 4. A negative \<open>len\<close> is converted to \<^verbatim>\<open>std::size_t\<close>:
  the sum wraps, so the vector shrinks when it holds enough bytes and \<^verbatim>\<open>resize\<close> raises
  \<^verbatim>\<open>std::length_error\<close> otherwise; the read that follows asks for nearly \<open>2 ^ 64\<close> bytes,
  which ends in the end-of-file error when nothing is left to read and writes past the
  vector when something is.
\<close>

definition read_body :: "int \<Rightarrow> stream \<Rightarrow> byte list \<Rightarrow> error + (byte list \<times> stream)" where
  "read_body len fp cat =
     (if 0 \<le> len then
        (case getbytes (nat len) fp of
           Inl e \<Rightarrow> Inl e
         | Inr (body, fp') \<Rightarrow> Inr (cat @ body, fp'))
      else if int (length cat) + len < 0 then Inl (ValueError ''vector::_M_default_append'')
      else if pending fp = [] then Inl EofError
      else Inl UndefinedBehaviour)"

text \<open>
  The loop of \<^verbatim>\<open>catrecord\<close> (core.cpp 231-277) and of \<^verbatim>\<open>getrecord\<close> (ext.cpp 220-262). The
  two are the same text except for the underflow test of core.cpp 239-240, which \<open>chk\<close>
  switches on. Every round reads four bytes, so the loop ends at the end of the file at the
  latest; the first argument bounds the number of headers read.
\<close>

fun cat_loop ::
  "bool \<Rightarrow> nat \<Rightarrow> (string \<Rightarrow> bool) \<Rightarrow> stream \<Rightarrow> int \<Rightarrow> byte list \<Rightarrow> string list
    \<Rightarrow> (error + (byte list \<times> stream \<times> string list)) option" where
  "cat_loop chk 0 esc fp remaining cat ws = None"
| "cat_loop chk (Suc n) esc fp remaining cat ws =
     (if remaining > 0 then
        (case segment_header fp of
           Inl e \<Rightarrow> Some (Inl e)
         | Inr (seg, fp1) \<Rightarrow>
             (let remaining' = remaining - seg_len seg
              in if chk \<and> remaining' < 0 then Some (Inl (ValueError ''underflow in cat-record''))
                 else
                   (let a = dlis_segment_attributes (seg_attrs seg)
                    in case read_body (seg_len seg - 4) fp1 cat of
                         Inl e \<Rightarrow> Some (Inl e)
                       | Inr (cat1, fp2) \<Rightarrow>
                           (case strip_tail a cat1 of
                              Inl e \<Rightarrow> Some (Inl e)
                            | Inr cat2 \<Rightarrow>
                                if has_successor a = 0 then Some (Inr (cat2, fp2, ws))
                                else cat_loop chk n esc fp2 remaining' cat2 ws))))
      else
        (case visible_length esc fp ws of
           Inl e \<Rightarrow> Some (Inl e)
         | Inr (len, fp1, ws1) \<Rightarrow> cat_loop chk n esc fp1 (len - 4) cat ws1))"

text \<open>\<^verbatim>\<open>catrecord\<close> of core.cpp and \<^verbatim>\<open>getrecord\<close> of ext.cpp, on an empty vector.\<close>

definition catrecord ::
  "nat \<Rightarrow> (string \<Rightarrow> bool) \<Rightarrow> stream \<Rightarrow> int \<Rightarrow> string list
    \<Rightarrow> (error + (byte list \<times> stream \<times> string list)) option" where
  "catrecord n esc fp remaining ws = cat_loop True n esc fp remaining [] ws"

definition getrecord ::
  "nat \<Rightarrow> (string \<Rightarrow> bool) \<Rightarrow> stream \<Rightarrow> int \<Rightarrow> string list
    \<Rightarrow> (error + (byte list \<times> stream \<times> string list)) option" where
  "getrecord n esc fp remaining ws = cat_loop False n esc fp remaining [] ws"

subsection \<open>The chain of a record, for stating what the assembler returns\<close>

text \<open>
  The segments that \<open>cat_loop\<close> reads from a position, each header with its body: the chain
  of the logical record, followed over visible record labels until a segment has no
  successor. \<open>None\<close> when the chain cannot be read to its end.
\<close>

fun record_segments ::
  "bool \<Rightarrow> nat \<Rightarrow> (string \<Rightarrow> bool) \<Rightarrow> stream \<Rightarrow> int \<Rightarrow> string list
     \<Rightarrow> (segheader \<times> byte list) list option" where
  "record_segments chk 0 esc fp remaining ws = None"
| "record_segments chk (Suc n) esc fp remaining ws =
     (if remaining > 0 then
        (case segment_header fp of
           Inl e \<Rightarrow> None
         | Inr (seg, fp1) \<Rightarrow>
             if (chk \<and> remaining - seg_len seg < 0) \<or> seg_len seg < 4 then None
             else
               (case getbytes (nat (seg_len seg - 4)) fp1 of
                  Inl e \<Rightarrow> None
                | Inr (body, fp2) \<Rightarrow>
                    if has_successor (dlis_segment_attributes (seg_attrs seg)) = 0
                    then Some [(seg, body)]
                    else map_option ((#) (seg, body))
                           (record_segments chk n esc fp2 (remaining - seg_len seg) ws)))
      else
        (case visible_length esc fp ws of
           Inl e \<Rightarrow> None
         | Inr (len, fp1, ws1) \<Rightarrow> record_segments chk n esc fp1 (len - 4) ws1))"

text \<open>The sum of the body lengths of a chain.\<close>

fun body_bytes :: "(segheader \<times> byte list) list \<Rightarrow> nat" where
  "body_bytes [] = 0"
| "body_bytes ((seg, body) # segs) = length body + body_bytes segs"

text \<open>
  The stripping of one segment body as the specification words it: drop the last 2 bytes for
  a trailing length, drop the last 2 bytes for a checksum, and for padding read the last byte
  that is left as the count and drop that many bytes from the end, the count byte among
  them.
\<close>

definition drop_last :: "nat \<Rightarrow> byte list \<Rightarrow> byte list" where
  "drop_last k bs = take (length bs - k) bs"

definition strip_body :: "segment_attributes \<Rightarrow> byte list \<Rightarrow> byte list" where
  "strip_body a body =
     (let b1 = (if has_trailing_length a \<noteq> 0 then drop_last 2 body else body);
          b2 = (if has_checksum a \<noteq> 0 then drop_last 2 b1 else b1)
      in if has_padding a \<noteq> 0 \<and> b2 \<noteq> [] then drop_last (unat (last b2)) b2 else b2)"

text \<open>The stripped bodies of a chain, one after the other.\<close>

fun assemble_bodies :: "(segheader \<times> byte list) list \<Rightarrow> byte list" where
  "assemble_bodies [] = []"
| "assemble_bodies ((seg, body) # segs) =
     strip_body (dlis_segment_attributes (seg_attrs seg)) body @ assemble_bodies segs"

text \<open>
  The number of bytes that the flags of a segment announce at the end of its body: two for a
  trailing length, two for a checksum, and with padding the count held in the last byte that
  is left after those.
\<close>

definition fixed_trailer :: "segment_attributes \<Rightarrow> nat" where
  "fixed_trailer a =
     (if has_trailing_length a \<noteq> 0 then 2 else 0) + (if has_checksum a \<noteq> 0 then 2 else 0)"

definition stripped :: "segment_attributes \<Rightarrow> byte list \<Rightarrow> nat" where
  "stripped a body =
     fixed_trailer a
     + (if has_padding a \<noteq> 0 then unat (last (drop_last (fixed_trailer a) body)) else 0)"

fun trailer_bytes :: "(segheader \<times> byte list) list \<Rightarrow> nat" where
  "trailer_bytes [] = 0"
| "trailer_bytes ((seg, body) # segs) =
     stripped (dlis_segment_attributes (seg_attrs seg)) body + trailer_bytes segs"

text \<open>
  A body holds its trailers: it is at least as long as what its flags announce, and with
  padding a count byte is left after the trailing length and the checksum.
\<close>

definition holds_trailers :: "segment_attributes \<Rightarrow> byte list \<Rightarrow> bool" where
  "holds_trailers a body \<longleftrightarrow>
     stripped a body \<le> length body \<and> (has_padding a = 0 \<or> fixed_trailer a < length body)"

fun chain_holds_trailers :: "(segheader \<times> byte list) list \<Rightarrow> bool" where
  "chain_holds_trailers [] = True"
| "chain_holds_trailers ((seg, body) # segs) =
     (holds_trailers (dlis_segment_attributes (seg_attrs seg)) body \<and> chain_holds_trailers segs)"

text \<open>A segment of a chain with the encryption flag left out of account.\<close>

definition but_encryption :: "segheader \<times> byte list \<Rightarrow> byte \<times> byte list" where
  "but_encryption s = (seg_attrs (fst s) OR 0x10, snd s)"

text \<open>What the assembler hands to its caller: the error, or the vector.\<close>

definition assembled ::
  "(error + (byte list \<times> stream \<times> string list)) option \<Rightarrow> (error + byte list) option" where
  "assembled r = map_option (map_sum id fst) r"

text \<open>
  The erasures of \<open>cat_loop\<close> applied to the bodies of a chain that has been read, starting
  from the vector \<open>cat\<close>: an auxiliary for the proofs.
\<close>

fun strip_chain :: "byte list \<Rightarrow> (segheader \<times> byte list) list \<Rightarrow> error + byte list" where
  "strip_chain cat [] = Inr cat"
| "strip_chain cat ((seg, body) # segs) =
     (case strip_tail (dlis_segment_attributes (seg_attrs seg)) (cat @ body) of
        Inl e \<Rightarrow> Inl e
      | Inr cat' \<Rightarrow> strip_chain cat' segs)"

subsection \<open>Python values\<close>

text \<open>
  The objects the parser builds. A floating-point number is kept as the bytes that encode it:
  the conversion to a host float is not part of this development. A \<^verbatim>\<open>str\<close> is kept as the
  characters of its UTF-8 encoding.
\<close>

datatype pyval =
    PNone
  | PInt int
  | PStr string
  | PFloat "byte list"
  | PDateTime int int int int int int int int
  | PTuple "pyval list"
  | PList "pyval list"

text \<open>
  A \<^verbatim>\<open>py::dict\<close> keeps its keys in the order of their first insertion; \<open>setitem\<close> is
  \<^verbatim>\<open>d[k] = v\<close> and \<open>getitem\<close> is \<^verbatim>\<open>d[k]\<close>.
\<close>

fun setitem :: "'k \<Rightarrow> 'v \<Rightarrow> ('k \<times> 'v) list \<Rightarrow> ('k \<times> 'v) list" where
  "setitem k v [] = [(k, v)]"
| "setitem k v (p # ps) = (if fst p = k then (k, v) # ps else p # setitem k v ps)"

definition getitem :: "('k \<times> 'v) list \<Rightarrow> 'k \<Rightarrow> 'v option" where
  "getitem d k = map_of d k"

type_synonym dict = "(string \<times> pyval) list"

text \<open>
  A \<^verbatim>\<open>py::dict\<close> value in C++ is a counted reference to a Python object: copying the value
  copies the reference, and \<^verbatim>\<open>col["value"] = ...\<close> writes into the object referred to. The
  store holds the dict objects; a reference is the index of its object, and a new object goes
  to the end.
\<close>

type_synonym store = "dict list"

definition alloc :: "dict \<Rightarrow> store \<Rightarrow> nat \<times> store" where
  "alloc d h = (length h, h @ [d])"

text \<open>\<^verbatim>\<open>col[k] = v\<close> through the reference \<open>col\<close>.\<close>

definition store_setitem :: "nat \<Rightarrow> string \<Rightarrow> pyval \<Rightarrow> store \<Rightarrow> store" where
  "store_setitem col k v h = h[col := setitem k v (h ! col)]"

subsection \<open>The payload and the primitive decoders\<close>

text \<open>
  The decoders receive a \<^verbatim>\<open>const char*&\<close> and nothing else: no length and no end pointer.
  The payload is the vector \<open>cat\<close>, the cursor is the offset from \<^verbatim>\<open>cat.data()\<close>. A read
  at or after \<^verbatim>\<open>cat.size()\<close> is a read outside the vector, which C++ leaves undefined.
\<close>

definition peek :: "byte list \<Rightarrow> nat \<Rightarrow> error + byte" where
  "peek cat p = (if p < length cat then Inr (cat ! p) else Inl UndefinedBehaviour)"

text \<open>The \<open>n\<close> bytes from \<open>p\<close> on.\<close>

definition bytes :: "byte list \<Rightarrow> nat \<Rightarrow> nat \<Rightarrow> error + byte list" where
  "bytes cat p n =
     (if p + n \<le> length cat then Inr (take n (drop p cat)) else Inl UndefinedBehaviour)"

text \<open>Big-endian unsigned value of a byte sequence.\<close>

definition be :: "byte list \<Rightarrow> int" where
  "be bs = foldl (\<lambda>acc b. 256 * acc + uint b) 0 bs"

text \<open>The same bytes read as a two's complement number.\<close>

definition be_signed :: "byte list \<Rightarrow> int" where
  "be_signed bs = (let v = be bs; w = 2 ^ (8 * length bs) in if 2 * v < w then v else v - w)"

definition text_of :: "byte list \<Rightarrow> string" where
  "text_of bs = map (\<lambda>b. char_of (unat b)) bs"

text \<open>
  A \<^verbatim>\<open>std::string\<close> is the list of its bytes. Where the C++ hands one to Python
  (\<^verbatim>\<open>l.append( ident( xs ) )\<close>, \<^verbatim>\<open>col["label"] = ident( cur )\<close>), pybind11 decodes it as
  UTF-8 and throws \<^verbatim>\<open>error_already_set\<close> when the bytes are not UTF-8. \<open>utf8\<close> is the
  well-formedness of the Unicode standard (table 3-7), which the decoder of the interpreter
  enforces: no overlong form, no surrogate, nothing above U+10FFFF.
\<close>

definition continuation :: "byte \<Rightarrow> bool" where
  "continuation b \<longleftrightarrow> 0x80 \<le> b \<and> b \<le> 0xBF"

text \<open>The second byte of a sequence of three and of four, after the lead byte \<open>b\<close>.\<close>

definition second_of_three :: "byte \<Rightarrow> byte \<Rightarrow> bool" where
  "second_of_three b c \<longleftrightarrow>
     (if b = 0xE0 then 0xA0 \<le> c \<and> c \<le> 0xBF
      else if b = 0xED then 0x80 \<le> c \<and> c \<le> 0x9F
      else continuation c)"

definition second_of_four :: "byte \<Rightarrow> byte \<Rightarrow> bool" where
  "second_of_four b c \<longleftrightarrow>
     (if b = 0xF0 then 0x90 \<le> c \<and> c \<le> 0xBF
      else if b = 0xF4 then 0x80 \<le> c \<and> c \<le> 0x8F
      else continuation c)"

fun utf8 :: "byte list \<Rightarrow> bool" where
  "utf8 [] = True"
| "utf8 (b # bs) =
     (if b < 0x80 then utf8 bs
      else if 0xC2 \<le> b \<and> b \<le> 0xDF then
        (case bs of c1 # r \<Rightarrow> continuation c1 \<and> utf8 r | _ \<Rightarrow> False)
      else if 0xE0 \<le> b \<and> b \<le> 0xEF then
        (case bs of c1 # c2 # r \<Rightarrow> second_of_three b c1 \<and> continuation c2 \<and> utf8 r
                  | _ \<Rightarrow> False)
      else if 0xF0 \<le> b \<and> b \<le> 0xF4 then
        (case bs of c1 # c2 # c3 # r \<Rightarrow>
                      second_of_four b c1 \<and> continuation c2 \<and> continuation c3 \<and> utf8 r
                  | _ \<Rightarrow> False)
      else False)"

text \<open>
  The conversion of the \<^verbatim>\<open>std::string\<close> that a decoder returned, with the cursor it left:
  \<^verbatim>\<open>py::cast\<close> of pybind11.
\<close>

definition cast_str :: "error + (byte list \<times> nat) \<Rightarrow> error + (pyval \<times> nat)" where
  "cast_str r =
     (case r of
        Inl e \<Rightarrow> Inl e
      | Inr (s, xs') \<Rightarrow> if utf8 s then Inr (PStr (text_of s), xs') else Inl UnicodeDecodeError)"

text \<open>
  The functions \<^verbatim>\<open>dlis_ushort\<close>, \<^verbatim>\<open>dlis_unorm\<close>, \<^verbatim>\<open>dlis_status\<close>, \<^verbatim>\<open>dlis_fsingl\<close>,
  \<^verbatim>\<open>dlis_uvari\<close>, \<^verbatim>\<open>dlis_ident\<close>, \<^verbatim>\<open>dlis_ascii\<close> and \<^verbatim>\<open>dlis_dtime\<close> are declared in
  \<^verbatim>\<open>dlisio/types.h\<close>, which is not among the sources. Their signatures are those of the calls
  in ext.cpp 285-339: a pointer in, the value through an out-parameter, the advanced pointer
  back, and nothing that tells where the payload ends. Widths and layouts are those of the
  table of section 4.1 of the spec; all values are big-endian.
\<close>

text \<open>Modelled from the spec: \<^verbatim>\<open>dlis_ushort\<close> is missing; USHORT is one unsigned byte.\<close>

definition dlis_ushort :: "byte list \<Rightarrow> nat \<Rightarrow> error + (byte \<times> nat)" where
  "dlis_ushort cat xs = (case peek cat xs of Inl e \<Rightarrow> Inl e | Inr b \<Rightarrow> Inr (b, xs + 1))"

text \<open>Modelled from the spec: \<^verbatim>\<open>dlis_unorm\<close> is missing; UNORM is two bytes, unsigned.\<close>

definition dlis_unorm :: "byte list \<Rightarrow> nat \<Rightarrow> error + (int \<times> nat)" where
  "dlis_unorm cat xs = (case bytes cat xs 2 of Inl e \<Rightarrow> Inl e | Inr bs \<Rightarrow> Inr (be bs, xs + 2))"

text \<open>Modelled from the spec: \<^verbatim>\<open>dlis_status\<close> is missing; STATUS is one byte.\<close>

definition dlis_status :: "byte list \<Rightarrow> nat \<Rightarrow> error + (byte \<times> nat)" where
  "dlis_status cat xs = (case peek cat xs of Inl e \<Rightarrow> Inl e | Inr b \<Rightarrow> Inr (b, xs + 1))"

text \<open>
  Modelled from the spec: \<^verbatim>\<open>dlis_fsingl\<close> is missing; FSINGL is four bytes, which are kept
  as they are.
\<close>

definition dlis_fsingl :: "byte list \<Rightarrow> nat \<Rightarrow> error + (byte list \<times> nat)" where
  "dlis_fsingl cat xs = (case bytes cat xs 4 of Inl e \<Rightarrow> Inl e | Inr bs \<Rightarrow> Inr (bs, xs + 4))"

text \<open>
  Modelled from the spec: \<^verbatim>\<open>dlis_uvari\<close> is missing; UVARI is 1, 2 or 4 bytes by the top bits of the first byte, the
  tag bits masked off. Scenario S3 and property 6 make every first byte below \<^verbatim>\<open>80\<close> a
  one-byte value (\<^verbatim>\<open>7F\<close> is 127), \<^verbatim>\<open>10\<close> the tag of two bytes and \<^verbatim>\<open>11\<close> of four.
\<close>

definition dlis_uvari :: "byte list \<Rightarrow> nat \<Rightarrow> error + (int \<times> nat)" where
  "dlis_uvari cat xs =
     (case peek cat xs of
        Inl e \<Rightarrow> Inl e
      | Inr b \<Rightarrow>
          if b AND 0x80 = 0 then Inr (uint b, xs + 1)
          else if b AND 0x40 = 0 then
            (case bytes cat (xs + 1) 1 of
               Inl e \<Rightarrow> Inl e
             | Inr bs \<Rightarrow> Inr (be ((b AND 0x3F) # bs), xs + 2))
          else
            (case bytes cat (xs + 1) 3 of
               Inl e \<Rightarrow> Inl e
             | Inr bs \<Rightarrow> Inr (be ((b AND 0x3F) # bs), xs + 4)))"

text \<open>
  Modelled from the spec: \<^verbatim>\<open>dlis_ident\<close> is missing; IDENT is a one-byte length and that
  many characters.
\<close>

definition dlis_ident :: "byte list \<Rightarrow> nat \<Rightarrow> error + (byte list \<times> nat)" where
  "dlis_ident cat xs =
     (case peek cat xs of
        Inl e \<Rightarrow> Inl e
      | Inr len \<Rightarrow>
          (case bytes cat (xs + 1) (unat len) of
             Inl e \<Rightarrow> Inl e
           | Inr str \<Rightarrow> Inr (str, xs + 1 + unat len)))"

text \<open>
  Modelled from the spec: \<^verbatim>\<open>dlis_ascii\<close> is missing; ASCII is a UVARI length and that many
  characters.
\<close>

definition dlis_ascii :: "byte list \<Rightarrow> nat \<Rightarrow> error + (byte list \<times> nat)" where
  "dlis_ascii cat xs =
     (case dlis_uvari cat xs of
        Inl e \<Rightarrow> Inl e
      | Inr (len, xs') \<Rightarrow>
          (case bytes cat xs' (nat len) of
             Inl e \<Rightarrow> Inl e
           | Inr str \<Rightarrow> Inr (str, xs' + nat len)))"

text \<open>
  Modelled from the spec: \<^verbatim>\<open>dlis_dtime\<close> is missing; DTIME is eight bytes, the year less 1900, the time zone and the
  month packed in one byte, day, hour, minute, second, and two bytes of milliseconds.
\<close>

definition dlis_dtime :: "byte list \<Rightarrow> nat \<Rightarrow> error + (pyval \<times> nat)" where
  "dlis_dtime cat xs =
     (case bytes cat xs 8 of
        Inl e \<Rightarrow> Inl e
      | Inr bs \<Rightarrow>
          Inr (PDateTime (1900 + uint (bs ! 0))
                         (uint (drop_bit 4 (bs ! 1)))
                         (uint (bs ! 1 AND 0x0F))
                         (uint (bs ! 2))
                         (uint (bs ! 3))
                         (uint (bs ! 4))
                         (uint (bs ! 5))
                         (be (drop 6 bs)),
               xs + 8))"

text \<open>
  The conversions of ext.cpp 285-339. Each takes the cursor by reference and leaves it
  advanced; none is given the end of the payload. \<open>ident\<close> and \<open>ascii\<close> return a
  \<^verbatim>\<open>std::string\<close>, the others a number.
\<close>

definition ident :: "byte list \<Rightarrow> nat \<Rightarrow> error + (byte list \<times> nat)" where
  "ident cat xs = dlis_ident cat xs"

definition ascii :: "byte list \<Rightarrow> nat \<Rightarrow> error + (byte list \<times> nat)" where
  "ascii cat xs = dlis_ascii cat xs"

definition fsingl :: "byte list \<Rightarrow> nat \<Rightarrow> error + (pyval \<times> nat)" where
  "fsingl cat xs = (case dlis_fsingl cat xs of Inl e \<Rightarrow> Inl e | Inr (x, xs') \<Rightarrow> Inr (PFloat x, xs'))"

definition unorm :: "byte list \<Rightarrow> nat \<Rightarrow> error + (pyval \<times> nat)" where
  "unorm cat xs = (case dlis_unorm cat xs of Inl e \<Rightarrow> Inl e | Inr (x, xs') \<Rightarrow> Inr (PInt x, xs'))"

definition uvari :: "byte list \<Rightarrow> nat \<Rightarrow> error + (pyval \<times> nat)" where
  "uvari cat xs = (case dlis_uvari cat xs of Inl e \<Rightarrow> Inl e | Inr (x, xs') \<Rightarrow> Inr (PInt x, xs'))"

definition ushort :: "byte list \<Rightarrow> nat \<Rightarrow> error + (pyval \<times> nat)" where
  "ushort cat xs =
     (case dlis_ushort cat xs of Inl e \<Rightarrow> Inl e | Inr (x, xs') \<Rightarrow> Inr (PInt (uint x), xs'))"

definition status :: "byte list \<Rightarrow> nat \<Rightarrow> error + (pyval \<times> nat)" where
  "status cat xs =
     (case dlis_status cat xs of Inl e \<Rightarrow> Inl e | Inr (x, xs') \<Rightarrow> Inr (PInt (uint x), xs'))"

text \<open>\<^verbatim>\<open>dtime\<close> of ext.cpp returns nothing and only moves the cursor.\<close>

definition ext_dtime :: "byte list \<Rightarrow> nat \<Rightarrow> error + nat" where
  "ext_dtime cat xs = (case dlis_dtime cat xs of Inl e \<Rightarrow> Inl e | Inr (x, xs') \<Rightarrow> Inr xs')"

text \<open>
  core.cpp takes its conversions from \<^verbatim>\<open>typeconv.cpp\<close>, which is not among the sources.
  Those that ext.cpp defines are taken from there; the others follow, in the same shape: the
  cursor in, the value and the advanced cursor out, no end of the payload. A floating-point
  value is the bytes that encode it; pairs and triples are tuples.
\<close>

text \<open>The bytes of \<open>n\<close> as an unsigned number, as a signed number, and as a float.\<close>

definition unsigned :: "nat \<Rightarrow> byte list \<Rightarrow> nat \<Rightarrow> error + (pyval \<times> nat)" where
  "unsigned n cat xs =
     (case bytes cat xs n of Inl e \<Rightarrow> Inl e | Inr bs \<Rightarrow> Inr (PInt (be bs), xs + n))"

definition signed_int :: "nat \<Rightarrow> byte list \<Rightarrow> nat \<Rightarrow> error + (pyval \<times> nat)" where
  "signed_int n cat xs =
     (case bytes cat xs n of Inl e \<Rightarrow> Inl e | Inr bs \<Rightarrow> Inr (PInt (be_signed bs), xs + n))"

definition float :: "nat \<Rightarrow> byte list \<Rightarrow> nat \<Rightarrow> error + (pyval \<times> nat)" where
  "float n cat xs =
     (case bytes cat xs n of Inl e \<Rightarrow> Inl e | Inr bs \<Rightarrow> Inr (PFloat bs, xs + n))"

text \<open>A tuple of \<open>k\<close> floats of \<open>n\<close> bytes each.\<close>

definition floats :: "nat \<Rightarrow> nat \<Rightarrow> byte list \<Rightarrow> nat \<Rightarrow> error + (pyval \<times> nat)" where
  "floats k n cat xs =
     (case bytes cat xs (k * n) of
        Inl e \<Rightarrow> Inl e
      | Inr bs \<Rightarrow> Inr (PTuple (map (\<lambda>i. PFloat (take n (drop (i * n) bs))) [0 ..< k]), xs + k * n))"

text \<open>Modelled from the spec: \<^verbatim>\<open>fshort\<close> of typeconv.cpp is missing; FSHORT is two bytes.\<close>

definition fshort :: "byte list \<Rightarrow> nat \<Rightarrow> error + (pyval \<times> nat)" where
  "fshort = float 2"

text \<open>Modelled from the spec: \<^verbatim>\<open>isingl\<close> of typeconv.cpp is missing; ISINGL is four bytes.\<close>

definition isingl :: "byte list \<Rightarrow> nat \<Rightarrow> error + (pyval \<times> nat)" where
  "isingl = float 4"

text \<open>Modelled from the spec: \<^verbatim>\<open>vsingl\<close> of typeconv.cpp is missing; VSINGL is four bytes.\<close>

definition vsingl :: "byte list \<Rightarrow> nat \<Rightarrow> error + (pyval \<times> nat)" where
  "vsingl = float 4"

text \<open>Modelled from the spec: \<^verbatim>\<open>fdoubl\<close> of typeconv.cpp is missing; FDOUBL is eight bytes.\<close>

definition fdoubl :: "byte list \<Rightarrow> nat \<Rightarrow> error + (pyval \<times> nat)" where
  "fdoubl = float 8"

text \<open>Modelled from the spec: \<^verbatim>\<open>fsing1\<close> of typeconv.cpp is missing; FSING1 is a pair of four-byte floats.\<close>

definition fsing1 :: "byte list \<Rightarrow> nat \<Rightarrow> error + (pyval \<times> nat)" where
  "fsing1 = floats 2 4"

text \<open>Modelled from the spec: \<^verbatim>\<open>fsing2\<close> of typeconv.cpp is missing; FSING2 is a triple of four-byte floats.\<close>

definition fsing2 :: "byte list \<Rightarrow> nat \<Rightarrow> error + (pyval \<times> nat)" where
  "fsing2 = floats 3 4"

text \<open>Modelled from the spec: \<^verbatim>\<open>fdoub1\<close> of typeconv.cpp is missing; FDOUB1 is a pair of eight-byte floats.\<close>

definition fdoub1 :: "byte list \<Rightarrow> nat \<Rightarrow> error + (pyval \<times> nat)" where
  "fdoub1 = floats 2 8"

text \<open>Modelled from the spec: \<^verbatim>\<open>fdoub2\<close> of typeconv.cpp is missing; FDOUB2 is a triple of eight-byte floats.\<close>

definition fdoub2 :: "byte list \<Rightarrow> nat \<Rightarrow> error + (pyval \<times> nat)" where
  "fdoub2 = floats 3 8"

text \<open>Modelled from the spec: \<^verbatim>\<open>csingl\<close> of typeconv.cpp is missing; CSINGL is the real and the imaginary part, four bytes each.\<close>

definition csingl :: "byte list \<Rightarrow> nat \<Rightarrow> error + (pyval \<times> nat)" where
  "csingl = floats 2 4"

text \<open>Modelled from the spec: \<^verbatim>\<open>cdoubl\<close> of typeconv.cpp is missing; CDOUBL is the real and the imaginary part, eight bytes each.\<close>

definition cdoubl :: "byte list \<Rightarrow> nat \<Rightarrow> error + (pyval \<times> nat)" where
  "cdoubl = floats 2 8"

text \<open>Modelled from the spec: \<^verbatim>\<open>sshort\<close> of typeconv.cpp is missing; SSHORT is one byte, signed.\<close>

definition sshort :: "byte list \<Rightarrow> nat \<Rightarrow> error + (pyval \<times> nat)" where
  "sshort = signed_int 1"

text \<open>Modelled from the spec: \<^verbatim>\<open>snorm\<close> of typeconv.cpp is missing; SNORM is two bytes, signed.\<close>

definition snorm :: "byte list \<Rightarrow> nat \<Rightarrow> error + (pyval \<times> nat)" where
  "snorm = signed_int 2"

text \<open>Modelled from the spec: \<^verbatim>\<open>slong\<close> of typeconv.cpp is missing; SLONG is four bytes, signed.\<close>

definition slong :: "byte list \<Rightarrow> nat \<Rightarrow> error + (pyval \<times> nat)" where
  "slong = signed_int 4"

text \<open>Modelled from the spec: \<^verbatim>\<open>ulong\<close> of typeconv.cpp is missing; ULONG is four bytes, unsigned.\<close>

definition ulong :: "byte list \<Rightarrow> nat \<Rightarrow> error + (pyval \<times> nat)" where
  "ulong = unsigned 4"

text \<open>
  Modelled from the spec: \<^verbatim>\<open>dtime\<close> of typeconv.cpp is missing; it returns the date-time
  that DTIME encodes.
\<close>

definition dtime :: "byte list \<Rightarrow> nat \<Rightarrow> error + (pyval \<times> nat)" where
  "dtime cat xs = dlis_dtime cat xs"

text \<open>
  Modelled from the spec: \<^verbatim>\<open>obname\<close> of typeconv.cpp is missing; OBNAME is the origin
  (UVARI), the copy number (USHORT) and the identifier (IDENT), which ext.cpp 458-460 reads
  one after the other and puts into a tuple.
\<close>

definition obname :: "byte list \<Rightarrow> nat \<Rightarrow> error + (pyval \<times> nat)" where
  "obname cat xs =
     (case dlis_uvari cat xs of
        Inl e \<Rightarrow> Inl e
      | Inr (origin, xs1) \<Rightarrow>
          (case dlis_ushort cat xs1 of
             Inl e \<Rightarrow> Inl e
           | Inr (copy, xs2) \<Rightarrow>
               (case cast_str (ident cat xs2) of
                  Inl e \<Rightarrow> Inl e
                | Inr (idn, xs3) \<Rightarrow> Inr (PTuple [PInt origin, PInt (uint copy), idn], xs3))))"

text \<open>
  Modelled from the spec: the representation codes \<^verbatim>\<open>DLIS_FSHORT\<close> to \<^verbatim>\<open>DLIS_STATUS\<close> are
  constants of \<^verbatim>\<open>dlisio/types.h\<close>, which is not among the sources. The table of section 4.1
  names them without their numbers; the numbers here are those of the DLIS standard. The
  theorems use of them only that they are distinct.
\<close>

definition DLIS_FSHORT :: int where "DLIS_FSHORT = 1"
definition DLIS_FSINGL :: int where "DLIS_FSINGL = 2"
definition DLIS_FSING1 :: int where "DLIS_FSING1 = 3"
definition DLIS_FSING2 :: int where "DLIS_FSING2 = 4"
definition DLIS_ISINGL :: int where "DLIS_ISINGL = 5"
definition DLIS_VSINGL :: int where "DLIS_VSINGL = 6"
definition DLIS_FDOUBL :: int where "DLIS_FDOUBL = 7"
definition DLIS_FDOUB1 :: int where "DLIS_FDOUB1 = 8"
definition DLIS_FDOUB2 :: int where "DLIS_FDOUB2 = 9"
definition DLIS_CSINGL :: int where "DLIS_CSINGL = 10"
definition DLIS_CDOUBL :: int where "DLIS_CDOUBL = 11"
definition DLIS_SSHORT :: int where "DLIS_SSHORT = 12"
definition DLIS_SNORM :: int where "DLIS_SNORM = 13"
definition DLIS_SLONG :: int where "DLIS_SLONG = 14"
definition DLIS_USHORT :: int where "DLIS_USHORT = 15"
definition DLIS_UNORM :: int where "DLIS_UNORM = 16"
definition DLIS_ULONG :: int where "DLIS_ULONG = 17"
definition DLIS_UVARI :: int where "DLIS_UVARI = 18"
definition DLIS_IDENT :: int where "DLIS_IDENT = 19"
definition DLIS_ASCII :: int where "DLIS_ASCII = 20"
definition DLIS_DTIME :: int where "DLIS_DTIME = 21"
definition DLIS_OBNAME :: int where "DLIS_OBNAME = 23"
definition DLIS_STATUS :: int where "DLIS_STATUS = 26"

subsection \<open>Arrays of values\<close>

text \<open>
  The \<^verbatim>\<open>switch\<close> of \<^verbatim>\<open>array\<close> in core.cpp 293-321: one element appended, or the error of
  the default branch. \<^verbatim>\<open>l.append\<close> makes a \<^verbatim>\<open>str\<close> of the string of \<open>ident\<close> and of
  \<open>ascii\<close>.
\<close>

definition element :: "int \<Rightarrow> byte list \<Rightarrow> nat \<Rightarrow> error + (pyval \<times> nat)" where
  "element reprc cat xs =
     (if reprc = DLIS_FSHORT then fshort cat xs
      else if reprc = DLIS_FSINGL then fsingl cat xs
      else if reprc = DLIS_FSING1 then fsing1 cat xs
      else if reprc = DLIS_FSING2 then fsing2 cat xs
      else if reprc = DLIS_ISINGL then isingl cat xs
      else if reprc = DLIS_VSINGL then vsingl cat xs
      else if reprc = DLIS_FDOUBL then fdoubl cat xs
      else if reprc = DLIS_FDOUB1 then fdoub1 cat xs
      else if reprc = DLIS_FDOUB2 then fdoub2 cat xs
      else if reprc = DLIS_CSINGL then csingl cat xs
      else if reprc = DLIS_CDOUBL then cdoubl cat xs
      else if reprc = DLIS_SSHORT then sshort cat xs
      else if reprc = DLIS_SNORM then snorm cat xs
      else if reprc = DLIS_SLONG then slong cat xs
      else if reprc = DLIS_USHORT then ushort cat xs
      else if reprc = DLIS_UNORM then unorm cat xs
      else if reprc = DLIS_ULONG then ulong cat xs
      else if reprc = DLIS_UVARI then uvari cat xs
      else if reprc = DLIS_IDENT then cast_str (ident cat xs)
      else if reprc = DLIS_ASCII then cast_str (ascii cat xs)
      else if reprc = DLIS_DTIME then dtime cat xs
      else if reprc = DLIS_STATUS then status cat xs
      else if reprc = DLIS_OBNAME then obname cat xs
      else Inl (ValueError (''unknown representation code '' @ to_string reprc)))"

text \<open>
  The \<^verbatim>\<open>switch\<close> of \<^verbatim>\<open>array\<close> in ext.cpp 345-356. For DTIME the text \<^verbatim>\<open>date-time\<close> is
  appended and the cursor moved.
\<close>

definition ext_element :: "int \<Rightarrow> byte list \<Rightarrow> nat \<Rightarrow> error + (pyval \<times> nat)" where
  "ext_element reprc cat xs =
     (if reprc = DLIS_FSINGL then fsingl cat xs
      else if reprc = DLIS_UNORM then unorm cat xs
      else if reprc = DLIS_UVARI then uvari cat xs
      else if reprc = DLIS_IDENT then cast_str (ident cat xs)
      else if reprc = DLIS_ASCII then cast_str (ascii cat xs)
      else if reprc = DLIS_DTIME then
        (case ext_dtime cat xs of Inl e \<Rightarrow> Inl e | Inr xs' \<Rightarrow> Inr (PStr ''date-time'', xs'))
      else if reprc = DLIS_STATUS then status cat xs
      else Inl (ValueError (''unknown array type '' @ to_string reprc)))"

text \<open>
  The \<^verbatim>\<open>for\<close> loop of both \<^verbatim>\<open>array\<close> functions: the first argument counts the rounds left,
  \<open>l\<close> is the list built so far.
\<close>

fun array_loop ::
  "(int \<Rightarrow> byte list \<Rightarrow> nat \<Rightarrow> error + (pyval \<times> nat)) \<Rightarrow> nat \<Rightarrow> int \<Rightarrow> byte list \<Rightarrow> nat
     \<Rightarrow> pyval list \<Rightarrow> error + (pyval list \<times> nat)" where
  "array_loop sw 0 reprc cat xs l = Inr (l, xs)"
| "array_loop sw (Suc i) reprc cat xs l =
     (case sw reprc cat xs of
        Inl e \<Rightarrow> Inl e
      | Inr (v, xs') \<Rightarrow> array_loop sw i reprc cat xs' (l @ [v]))"

text \<open>\<^verbatim>\<open>array\<close> of core.cpp 289-325: the list is returned as it is.\<close>

definition array :: "int \<Rightarrow> int \<Rightarrow> byte list \<Rightarrow> nat \<Rightarrow> error + (pyval \<times> nat)" where
  "array count reprc cat xs =
     (case array_loop element (nat count) reprc cat xs [] of
        Inl e \<Rightarrow> Inl e
      | Inr (l, xs') \<Rightarrow> Inr (PList l, xs'))"

text \<open>\<^verbatim>\<open>array\<close> of ext.cpp 341-362: with \<^verbatim>\<open>count == 1\<close> the element itself is returned.\<close>

definition ext_array :: "int \<Rightarrow> int \<Rightarrow> byte list \<Rightarrow> nat \<Rightarrow> error + (pyval \<times> nat)" where
  "ext_array count reprc cat xs =
     (case array_loop ext_element (nat count) reprc cat xs [] of
        Inl e \<Rightarrow> Inl e
      | Inr (l, xs') \<Rightarrow> if count = 1 then Inr (l ! 0, xs') else Inr (PList l, xs'))"

subsection \<open>Component descriptors\<close>

datatype role = ABSATR | ATTRIB | INVATR | OBJECT | RESERV | RDSET | RSET | SET

text \<open>
  Modelled from the spec: \<^verbatim>\<open>dlis_component\<close> is declared in \<^verbatim>\<open>dlisio/dlisio.h\<close>, which is not
  among the sources. Section 6.1: the role is in the top three bits, ABSATR = 0, ATTRIB = 1,
  INVATR = 2, OBJECT = 3, RESERV = 4, RDSET = 5, RSET = 6, SET = 7. Every pattern of the
  three bits is a role, so the error return does not occur.
\<close>

definition dlis_component :: "byte \<Rightarrow> role" where
  "dlis_component descriptor =
     (let r = unat (drop_bit 5 descriptor)
      in if r = 0 then ABSATR else if r = 1 then ATTRIB else if r = 2 then INVATR
         else if r = 3 then OBJECT else if r = 4 then RESERV else if r = 5 then RDSET
         else if r = 6 then RSET else SET)"

text \<open>
  Modelled from the spec: \<^verbatim>\<open>dlis_component_set\<close>, section 4.2: the flags of a set are
  \<open>has_type\<close> and \<open>has_name\<close>, the two highest of the lower five bits.
\<close>

definition dlis_component_set :: "byte \<Rightarrow> int \<times> int" where
  "dlis_component_set descriptor = (flag descriptor 0x10, flag descriptor 0x08)"

record attrib_flags =
  has_label :: int
  has_count :: int
  has_reprc :: int
  has_units :: int
  has_value :: int

text \<open>
  Modelled from the spec: \<^verbatim>\<open>dlis_component_attrib\<close>, section 4.2: the lower five bits of an
  attribute descriptor are \<open>has_label\<close>, \<open>has_count\<close>, \<open>has_reprc\<close>, \<open>has_units\<close>,
  \<open>has_value\<close>, from the highest down. It is called on attribute descriptors only, where
  its error return does not occur.
\<close>

definition dlis_component_attrib :: "byte \<Rightarrow> attrib_flags" where
  "dlis_component_attrib descriptor =
     \<lparr>has_label = flag descriptor 0x10,
      has_count = flag descriptor 0x08,
      has_reprc = flag descriptor 0x04,
      has_units = flag descriptor 0x02,
      has_value = flag descriptor 0x01\<rparr>"

text \<open>
  \<^verbatim>\<open>set_attributes\<close> of core.cpp 331-361. An error message is modelled by its literal
  part; the rendering of the role that the C++ appends is left out.
\<close>

definition set_attributes :: "byte \<Rightarrow> error + (int \<times> int)" where
  "set_attributes attr =
     (let role = dlis_component attr
      in if role = RDSET \<or> role = RSET \<or> role = SET then Inr (dlis_component_set attr)
         else Inl (ValueError ''expected set, was ''))"

subsection \<open>The EFLR parser of core.cpp\<close>

text \<open>\<^verbatim>\<open>col[k].cast< int >()\<close>.\<close>

definition cast_int :: "dict \<Rightarrow> string \<Rightarrow> error + int" where
  "cast_int d k =
     (case getitem d k of
        Some (PInt i) \<Rightarrow> Inr i
      | _ \<Rightarrow> Inl (ValueError ''Unable to cast Python instance to C++ type''))"

text \<open>
  One conditional assignment \<^verbatim>\<open>if( flag ) col[k] = decode( cur );\<close>, where \<open>r\<close> is what the
  decoder returns at \<open>cur\<close>.
\<close>

definition assign_if ::
  "int \<Rightarrow> string \<Rightarrow> error + (pyval \<times> nat) \<Rightarrow> dict \<Rightarrow> nat \<Rightarrow> error + (dict \<times> nat)" where
  "assign_if flg k r col cur =
     (if flg \<noteq> 0
      then (case r of Inl e \<Rightarrow> Inl e | Inr (v, c) \<Rightarrow> Inr (setitem k v col, c))
      else Inr (col, cur))"

text \<open>
  The four conditional assignments that end the body of the template loop (core.cpp
  421-426, ext.cpp 430-435) and of the column loop (core.cpp 527-532, ext.cpp 501-506), on
  the dict that \<open>col\<close> refers to. The two files differ in the \<^verbatim>\<open>array\<close> they call, which is
  the parameter \<open>arr\<close>.
\<close>

definition attribute_fields ::
  "(int \<Rightarrow> int \<Rightarrow> byte list \<Rightarrow> nat \<Rightarrow> error + (pyval \<times> nat))
     \<Rightarrow> attrib_flags \<Rightarrow> byte list \<Rightarrow> nat \<Rightarrow> dict \<Rightarrow> error + (dict \<times> nat)" where
  "attribute_fields arr f cat cur col =
     (case assign_if (has_count f) ''count'' (uvari cat cur) col cur of
        Inl e \<Rightarrow> Inl e
      | Inr (col1, cur1) \<Rightarrow>
     (case assign_if (has_reprc f) ''reprc'' (ushort cat cur1) col1 cur1 of
        Inl e \<Rightarrow> Inl e
      | Inr (col2, cur2) \<Rightarrow>
     (case assign_if (has_units f) ''units'' (cast_str (ident cat cur2)) col2 cur2 of
        Inl e \<Rightarrow> Inl e
      | Inr (col3, cur3) \<Rightarrow>
          if has_value f \<noteq> 0 then
            (case cast_int col3 ''count'' of
               Inl e \<Rightarrow> Inl e
             | Inr count \<Rightarrow>
                 (case cast_int col3 ''reprc'' of
                    Inl e \<Rightarrow> Inl e
                  | Inr reprc \<Rightarrow>
                      (case arr count reprc cat cur3 of
                         Inl e \<Rightarrow> Inl e
                       | Inr (v, c) \<Rightarrow> Inr (setitem ''value'' v col3, c))))
          else Inr (col3, cur3))))"

record tmpl =
  attribute :: "nat list"
  invariant :: "nat list"

text \<open>
  \<^verbatim>\<open>eflr_template\<close> of core.cpp 368-431. The loop ends at the first OBJECT descriptor and
  never compares the cursor with the end of the payload; the first argument bounds the
  number of components read. The dict of a column is built and then put into the store by
  \<^verbatim>\<open>push_back\<close>; nothing else refers to it before.
\<close>

fun eflr_template ::
  "nat \<Rightarrow> byte list \<Rightarrow> nat \<Rightarrow> store \<Rightarrow> tmpl \<Rightarrow> (error + (tmpl \<times> nat \<times> store)) option" where
  "eflr_template 0 cat cur h cols = None"
| "eflr_template (Suc n) cat cur h cols =
     (case peek cat cur of
        Inl e \<Rightarrow> Some (Inl e)
      | Inr attr \<Rightarrow>
          (let role = dlis_component attr
           in if role = OBJECT then Some (Inr (cols, cur, h))
              else if role \<noteq> ATTRIB \<and> role \<noteq> INVATR
              then Some (Inl (ValueError ''expected attribute in template, got ''))
              else
                (let cur1 = cur + 1;
                     col = [(''count'', PInt 1), (''reprc'', PInt DLIS_IDENT), (''value'', PNone)];
                     f = dlis_component_attrib attr
                 in if has_label f = 0
                    then Some (Inl (ValueError ''missing template attribute label''))
                    else
                      (case cast_str (ident cat cur1) of
                         Inl e \<Rightarrow> Some (Inl e)
                       | Inr (label, cur2) \<Rightarrow>
                           (case attribute_fields array f cat cur2 (setitem ''label'' label col) of
                              Inl e \<Rightarrow> Some (Inl e)
                            | Inr (col', cur3) \<Rightarrow>
                                (case alloc col' h of
                                   (ref, h') \<Rightarrow>
                                     if role = ATTRIB
                                     then eflr_template n cat cur3 h' (cols\<lparr>attribute := attribute cols @ [ref]\<rparr>)
                                     else eflr_template n cat cur3 h' (cols\<lparr>invariant := invariant cols @ [ref]\<rparr>)))))))"

text \<open>
  The part of the column loop after the descriptor of an ATTRIB component has been consumed
  (core.cpp 510-532): a label is not expected here, it is warned about and skipped. The
  string of the label is dropped, it is never made a \<^verbatim>\<open>str\<close>.
\<close>

definition object_attribute ::
  "(string \<Rightarrow> bool) \<Rightarrow> byte list \<Rightarrow> byte \<Rightarrow> nat \<Rightarrow> dict \<Rightarrow> string list
     \<Rightarrow> error + (dict \<times> nat \<times> string list)" where
  "object_attribute esc cat descriptor cur col ws =
     (let f = dlis_component_attrib descriptor
      in case (if has_label f \<noteq> 0
               then (case runtime_warning esc
                             ''found unexpected label in object attribute, possibly corrupted file. label'' ws of
                       Inl e \<Rightarrow> Inl e
                     | Inr ws' \<Rightarrow>
                         (case ident cat cur of
                            Inl e \<Rightarrow> Inl e
                          | Inr (label, cur') \<Rightarrow> Inr (cur', ws')))
               else Inr (cur, ws)) of
           Inl e \<Rightarrow> Inl e
         | Inr (cur1, ws1) \<Rightarrow>
             (case attribute_fields array f cat cur1 col of
                Inl e \<Rightarrow> Inl e
              | Inr (col', cur2) \<Rightarrow> Inr (col', cur2, ws1)))"

text \<open>
  The same part of the column loop in \<^verbatim>\<open>file::parse_elfr\<close> of ext.cpp (488-506): there a
  label raises.
\<close>

definition ext_object_attribute ::
  "byte list \<Rightarrow> byte \<Rightarrow> nat \<Rightarrow> dict \<Rightarrow> error + (dict \<times> nat)" where
  "ext_object_attribute cat descriptor cur col =
     (let f = dlis_component_attrib descriptor
      in if has_label f \<noteq> 0 then Inl (ValueError ''label in object attribute'')
         else attribute_fields ext_array f cat cur col)"

text \<open>
  The column loop \<^verbatim>\<open>for( auto& col : row )\<close> of core.cpp 472-533, over the references of
  the row: it stops at the end of the payload and at an OBJECT descriptor, and writes through
  each reference into the store.
\<close>

fun object_row ::
  "(string \<Rightarrow> bool) \<Rightarrow> byte list \<Rightarrow> nat list \<Rightarrow> nat \<Rightarrow> store \<Rightarrow> string list
     \<Rightarrow> error + (nat \<times> store \<times> string list)" where
  "object_row esc cat [] cur h ws = Inr (cur, h, ws)"
| "object_row esc cat (col # cols) cur h ws =
     (if cur = length cat then Inr (cur, h, ws)
      else
        (case peek cat cur of
           Inl e \<Rightarrow> Inl e
         | Inr descriptor \<Rightarrow>
             (let role = dlis_component descriptor
              in if role = OBJECT then Inr (cur, h, ws)
                 else if role \<noteq> ATTRIB \<and> role \<noteq> ABSATR
                 then Inl (ValueError ''expected attribute, found '')
                 else if role = ABSATR
                 then object_row esc cat cols (cur + 1) (store_setitem col ''value'' PNone h) ws
                 else
                   (case object_attribute esc cat descriptor (cur + 1) (h ! col) ws of
                      Inl e \<Rightarrow> Inl e
                    | Inr (col', cur', ws') \<Rightarrow> object_row esc cat cols cur' (h[col := col']) ws'))))"

text \<open>
  The object loop of core.cpp 450-538. \<^verbatim>\<open>auto row = tmpl.attribute\<close> copies the vector of
  references; the invariant references are appended to the copy, and the row is stored under
  the one-element tuple of the object name (a second object of that name replaces the first).
  The loop ends when the cursor equals the end of the payload; the first argument bounds the
  number of objects read.
\<close>

fun eflr_objects ::
  "nat \<Rightarrow> (string \<Rightarrow> bool) \<Rightarrow> byte list \<Rightarrow> tmpl \<Rightarrow> nat \<Rightarrow> store \<Rightarrow> string list
     \<Rightarrow> (pyval \<times> nat list) list
     \<Rightarrow> (error + ((pyval \<times> nat list) list \<times> store \<times> string list)) option" where
  "eflr_objects 0 esc cat cols cur h ws objs = None"
| "eflr_objects (Suc n) esc cat cols cur h ws objs =
     (if cur = length cat then Some (Inr (objs, h, ws))
      else
        (case peek cat cur of
           Inl e \<Rightarrow> Some (Inl e)
         | Inr descriptor \<Rightarrow>
             (let cur1 = cur + 1; role = dlis_component descriptor
              in if role \<noteq> OBJECT then Some (Inl (ValueError ''expected object, was ''))
                 else
                   (case obname cat cur1 of
                      Inl e \<Rightarrow> Some (Inl e)
                    | Inr (name, cur2) \<Rightarrow>
                        (let row = attribute cols
                         in case object_row esc cat row cur2 h ws of
                              Inl e \<Rightarrow> Some (Inl e)
                            | Inr (cur3, h', ws') \<Rightarrow>
                                eflr_objects n esc cat cols cur3 h' ws'
                                  (setitem (PTuple [name]) (row @ invariant cols) objs))))))"

text \<open>
  The record returned: the references are those held by the lists under
  \<^verbatim>\<open>"template-attribute"\<close>, \<^verbatim>\<open>"template-invariant"\<close> and in the rows of \<^verbatim>\<open>"objects"\<close>; what they
  refer to is in the store returned with it.
\<close>

record eflr_record =
  set_type :: pyval
  set_name :: "pyval option"
  template_attribute :: "nat list"
  template_invariant :: "nat list"
  objects :: "(pyval \<times> nat list) list"

text \<open>
  The two conditional assignments \<^verbatim>\<open>if( set.type ) record["type"] = ident( cur );\<close> and
  \<^verbatim>\<open>if( set.name ) record["name"] = ident( cur );\<close> of core.cpp 444-445: the type, the name
  and the cursor after them.
\<close>

definition set_header ::
  "int \<Rightarrow> int \<Rightarrow> byte list \<Rightarrow> nat \<Rightarrow> error + (pyval \<times> pyval option \<times> nat)" where
  "set_header has_type has_name cat cur =
     (case (if has_type \<noteq> 0 then cast_str (ident cat cur) else Inr (PNone, cur)) of
        Inl e \<Rightarrow> Inl e
      | Inr (ty, cur1) \<Rightarrow>
          if has_name \<noteq> 0
          then (case cast_str (ident cat cur1) of
                  Inl e \<Rightarrow> Inl e
                | Inr (nm, cur2) \<Rightarrow> Inr (ty, Some nm, cur2))
          else Inr (ty, None, cur1))"

text \<open>\<^verbatim>\<open>eflr\<close> of core.cpp 433-544, on the payload \<open>cat\<close>.\<close>

definition eflr ::
  "nat \<Rightarrow> (string \<Rightarrow> bool) \<Rightarrow> byte list \<Rightarrow> string list
     \<Rightarrow> (error + (eflr_record \<times> store \<times> string list)) option" where
  "eflr n esc cat ws =
     (case peek cat 0 of
        Inl e \<Rightarrow> Some (Inl e)
      | Inr descriptor \<Rightarrow>
     (case set_attributes descriptor of
        Inl e \<Rightarrow> Some (Inl e)
      | Inr (has_type, has_name) \<Rightarrow>
     (case set_header has_type has_name cat 1 of
        Inl e \<Rightarrow> Some (Inl e)
      | Inr (ty, nm, cur2) \<Rightarrow>
     (case eflr_template n cat cur2 [] \<lparr>attribute = [], invariant = []\<rparr> of
        None \<Rightarrow> None
      | Some (Inl e) \<Rightarrow> Some (Inl e)
      | Some (Inr (cols, cur3, h)) \<Rightarrow>
          (case eflr_objects n esc cat cols cur3 h ws [] of
             None \<Rightarrow> None
           | Some (Inl e) \<Rightarrow> Some (Inl e)
           | Some (Inr (objs, h', ws')) \<Rightarrow>
               Some (Inr (\<lparr>set_type = ty, set_name = nm,
                           template_attribute = attribute cols,
                           template_invariant = invariant cols,
                           objects = objs\<rparr>, h', ws')))))))"

subsection \<open>Decoders and the end of the payload\<close>


section \<open>Theorems\<close>

subsection \<open>End of file\<close>

lemma pending_Nil_iff:
  "pending fd = [] \<longleftrightarrow> unget fd = None \<and> length (data fd) \<le> offset fd"
  by (cases "unget fd") (simp_all add: pending_def)

text \<open>
  C10. On an open file \<open>eof\<close> raises nothing, answers true exactly when no byte is left to
  read (nothing pushed back and the offset at or past the end of the data), and leaves the
  stream delivering the same bytes from the same position: the probed byte is pushed back.
\<close>

theorem eof_probe_restores:
  "\<exists>fd'. eof (Some fd) = Inr (pending fd = [], Some fd')
        \<and> pending fd' = pending fd \<and> ftell fd' = ftell fd \<and> data fd' = data fd"
proof (cases "unget fd")
  case (Some c)
  then show ?thesis
    by (simp add: eof_def as_FILE_def fgetc_def ungetc_def feof_def pending_def ftell_def)
next
  case None
  show ?thesis
  proof (cases "offset fd < length (data fd)")
    case True
    with None show ?thesis
      by (simp add: eof_def as_FILE_def fgetc_def ungetc_def feof_def pending_def ftell_def
          Cons_nth_drop_Suc)
  next
    case False
    with None show ?thesis
      by (simp add: eof_def as_FILE_def fgetc_def ungetc_def feof_def pending_def ftell_def)
  qed
qed

subsection \<open>The erasures and the chain\<close>

lemma erase_tail_Inr: "erase_tail k cat = Inr cat' \<Longrightarrow> k \<le> length cat \<and> cat' = take (length cat - k) cat"
  by (auto simp: erase_tail_def split: if_splits)

lemma erase_tail_0: "erase_tail 0 buf = Inr buf"
  by (simp add: erase_tail_def)

lemma erase_tail_twice:
  "(case erase_tail k1 buf of Inl e \<Rightarrow> Inl e | Inr c \<Rightarrow> erase_tail k2 c) = erase_tail (k1 + k2) buf"
proof (cases "length buf < k1")
  case True
  then show ?thesis by (simp add: erase_tail_def)
next
  case False
  then have m: "min (length buf - k1 - k2) (length buf - k1) = length buf - (k1 + k2)"
    by arith
  from False have "(length buf - k1 < k2) = (length buf < k1 + k2)"
    by arith
  with False m show ?thesis
    by (simp add: erase_tail_def)
qed

lemma getbytes_Inr:
  "getbytes n fd = Inr (bs, fd') \<Longrightarrow> length bs = n \<and> bs = take n (pending fd) \<and> pending fd' = drop n (pending fd)"
  by (cases "unget fd")
     (auto simp: getbytes_def fread_def pending_def Let_def add.commute drop_Cons' split: if_splits)

lemma read_body_Inr:
  "read_body len fp cat = Inr (cat1, fp2) \<Longrightarrow>
     0 \<le> len \<and> (\<exists>body. getbytes (nat len) fp = Inr (body, fp2) \<and> cat1 = cat @ body)"
  by (auto simp: read_body_def split: if_splits sum.splits)


lemma flag_set_encrypted:
  "bitmask \<in> {0x80, 0x40, 0x20, 0x08, 0x04, 0x02, 0x01} \<Longrightarrow> flag (a OR 0x10) bitmask = flag a bitmask"
  by (auto simp: flag_def bit.conj_disj_distrib2)

lemma attrs_set_encrypted:
  "dlis_segment_attributes (a OR 0x10) = (dlis_segment_attributes a)\<lparr>is_encrypted := 1\<rparr>"
  by (simp add: dlis_segment_attributes_def flag_set_encrypted) (simp add: flag_def)


lemma strip_tail_encrypted: "strip_tail (x\<lparr>is_encrypted := e\<rparr>) cat = strip_tail x cat"
  by (simp add: strip_tail_def cong: sum.case_cong)


lemma strip_tail_agree:
  assumes "a OR 0x10 = a2 OR 0x10"
  shows "strip_tail (dlis_segment_attributes a) cat = strip_tail (dlis_segment_attributes a2) cat"
proof -
  have "strip_tail (dlis_segment_attributes a) cat
          = strip_tail (dlis_segment_attributes (a OR 0x10)) cat"
    by (simp only: attrs_set_encrypted strip_tail_encrypted)
  also have "\<dots> = strip_tail (dlis_segment_attributes (a2 OR 0x10)) cat"
    by (simp only: assms)
  also have "\<dots> = strip_tail (dlis_segment_attributes a2) cat"
    by (simp only: attrs_set_encrypted strip_tail_encrypted)
  finally show ?thesis .
qed

lemma strip_chain_agree:
  "map but_encryption segs = map but_encryption segs2 \<Longrightarrow> strip_chain cat segs = strip_chain cat segs2"
proof (induction segs arbitrary: segs2 cat)
  case Nil
  then show ?case by simp
next
  case (Cons s segs)
  then obtain s2 rest where s2: "segs2 = s2 # rest" by (cases segs2) auto
  obtain h b where s: "s = (h, b)" by (cases s)
  obtain h2 b2 where s2': "s2 = (h2, b2)" by (cases s2)
  from Cons.prems s2 have hd: "but_encryption s = but_encryption s2"
    and r: "map but_encryption segs = map but_encryption rest"
    by simp_all
  from hd s s2' have a: "seg_attrs h OR 0x10 = seg_attrs h2 OR 0x10" and b: "b = b2"
    by (simp_all add: but_encryption_def)
  show ?case
    unfolding s2 s s2' strip_chain.simps strip_tail_agree[OF a] b
    by (simp add: Cons.IH[OF r] cong: sum.case_cong)
qed

text \<open>
  Once the chain has been read, what the loop hands back is the erasures applied to its
  bodies in turn; the loop returns whenever the chain can be read.
\<close>

lemma cat_loop_chain:
  "record_segments chk n esc fp rem ws = Some segs \<Longrightarrow>
     assembled (cat_loop chk n esc fp rem cat ws) = Some (strip_chain cat segs)"
proof (induction n arbitrary: fp rem cat ws segs)
  case 0
  then show ?case by simp
next
  case (Suc n)
  show ?case
  proof (cases "rem > 0")
    case True
    from Suc.prems True obtain seg fp1 where hdr: "segment_header fp = Inr (seg, fp1)"
      by (auto split: sum.splits)
    let ?a = "dlis_segment_attributes (seg_attrs seg)"
    from Suc.prems True hdr have nochk: "\<not> (chk \<and> rem - seg_len seg < 0)" and len4: "4 \<le> seg_len seg"
      by (auto split: if_splits)
    from Suc.prems True hdr nochk len4 obtain body fp2 where
      gb: "getbytes (nat (seg_len seg - 4)) fp1 = Inr (body, fp2)"
      by (auto split: sum.splits)
    from gb len4 have rb: "read_body (seg_len seg - 4) fp1 cat = Inr (cat @ body, fp2)"
      by (simp add: read_body_def)
    show ?thesis
    proof (cases "has_successor ?a = 0")
      case nosucc: True
      with Suc.prems True hdr nochk len4 gb have segs: "segs = [(seg, body)]"
        by auto
      from True hdr nochk rb nosucc show ?thesis
        unfolding segs
        by (cases "strip_tail ?a (cat @ body)") (auto simp: assembled_def Let_def)
    next
      case succ: False
      with Suc.prems True hdr nochk len4 gb obtain rest where
        ch: "record_segments chk n esc fp2 (rem - seg_len seg) ws = Some rest"
        and segs: "segs = (seg, body) # rest"
        by auto
      show ?thesis
      proof (cases "strip_tail ?a (cat @ body)")
        case (Inl e)
        with True hdr nochk rb succ show ?thesis
          unfolding segs by (auto simp: assembled_def Let_def)
      next
        case (Inr cat2)
        with True hdr nochk rb succ Suc.IH[OF ch, of cat2] show ?thesis
          unfolding segs by (auto simp: Let_def)
      qed
    qed
  next
    case False
    from Suc.prems False obtain len fp1 ws1 where
      v: "visible_length esc fp ws = Inr (len, fp1, ws1)"
      and ch: "record_segments chk n esc fp1 (len - 4) ws1 = Some segs"
      by (auto split: sum.splits)
    from Suc.IH[OF ch, of cat] False v show ?thesis by simp
  qed
qed

lemma assembled_Inr:
  "assembled r = Some (Inr buf) \<Longrightarrow> \<exists>fp' ws'. r = Some (Inr (buf, fp', ws'))"
  by (cases r) (auto simp: assembled_def map_sum_def split: sum.splits)

lemma strip_tail_body:
  assumes "holds_trailers a body"
  shows "strip_tail a (cat @ body) = Inr (cat @ strip_body a body)
       \<and> length (strip_body a body) + stripped a body = length body"
proof -
  define k1 :: nat where "k1 = (if has_trailing_length a \<noteq> 0 then 2 else 0)"
  define k2 :: nat where "k2 = (if has_checksum a \<noteq> 0 then 2 else 0)"
  define b2 where "b2 = drop_last (k1 + k2) body"
  have ft: "fixed_trailer a = k1 + k2"
    by (simp add: fixed_trailer_def k1_def k2_def)
  from assms have le: "k1 + k2 \<le> length body"
    by (simp add: holds_trailers_def stripped_def ft)
  have e1: "(if has_trailing_length a \<noteq> 0 then erase_tail 2 c else Inr c) = erase_tail k1 c" for c
    by (simp add: k1_def erase_tail_0)
  have e2: "(if has_checksum a \<noteq> 0 then erase_tail 2 c else Inr c) = erase_tail k2 c" for c
    by (simp add: k2_def erase_tail_0)
  have unf: "strip_tail a c =
     (case erase_tail (k1 + k2) c of
        Inl e \<Rightarrow> Inl e
      | Inr c2 \<Rightarrow> if has_padding a \<noteq> 0
          then (if c2 = [] then Inl UndefinedBehaviour else erase_tail (unat (last c2)) c2)
          else Inr c2)" for c
    unfolding strip_tail_def e1 e2 erase_tail_twice[symmetric]
    by (simp split: sum.splits)
  have d1: "(if has_trailing_length a \<noteq> 0 then drop_last 2 c else c) = drop_last k1 c" for c
    by (simp add: k1_def drop_last_def)
  have d2: "(if has_checksum a \<noteq> 0 then drop_last 2 c else c) = drop_last k2 c" for c
    by (simp add: k2_def drop_last_def)
  have "min (length body - k1 - k2) (length body - k1) = length body - (k1 + k2)"
    by arith
  then have dd: "drop_last k2 (drop_last k1 body) = b2"
    by (simp add: drop_last_def b2_def)
  have sb: "strip_body a body =
      (if has_padding a \<noteq> 0 \<and> b2 \<noteq> [] then drop_last (unat (last b2)) b2 else b2)"
    unfolding strip_body_def d1 d2 dd Let_def ..
  have er: "erase_tail (k1 + k2) (cat @ body) = Inr (cat @ b2)"
    using le by (simp add: erase_tail_def b2_def drop_last_def)
  have lb2: "length b2 = length body - (k1 + k2)"
    by (simp add: b2_def drop_last_def)
  show ?thesis
  proof (cases "has_padding a = 0")
    case True
    with le show ?thesis
      by (simp add: unf er sb stripped_def ft lb2)
  next
    case False
    with assms have ne: "b2 \<noteq> []" and p: "unat (last b2) \<le> length b2"
      by (auto simp: holds_trailers_def stripped_def ft b2_def drop_last_def)
    from ne have lc: "last (cat @ b2) = last b2" by simp
    from False ne have "strip_tail a (cat @ body) = erase_tail (unat (last b2)) (cat @ b2)"
      by (simp add: unf er lc)
    also from p have "\<dots> = Inr (cat @ take (length b2 - unat (last b2)) b2)"
      by (simp add: erase_tail_def)
    finally have st: "strip_tail a (cat @ body) = Inr (cat @ take (length b2 - unat (last b2)) b2)" .
    from False ne have sb': "strip_body a body = take (length b2 - unat (last b2)) b2"
      by (simp add: sb drop_last_def)
    from False have sp: "stripped a body = k1 + k2 + unat (last b2)"
      by (simp add: stripped_def ft b2_def)
    from p have "length (take (length b2 - unat (last b2)) b2) = length b2 - unat (last b2)"
      by simp
    with p le lb2 have "length (take (length b2 - unat (last b2)) b2) + (k1 + k2 + unat (last b2))
        = length body"
      by arith
    with st sb' sp show ?thesis
      by simp
  qed
qed

lemma strip_chain_bodies:
  "chain_holds_trailers segs \<Longrightarrow>
     strip_chain cat segs = Inr (cat @ assemble_bodies segs)
     \<and> length (assemble_bodies segs) + trailer_bytes segs = body_bytes segs"
proof (induction segs arbitrary: cat)
  case Nil
  then show ?case by simp
next
  case (Cons s segs)
  obtain h b where s: "s = (h, b)" by (cases s)
  from Cons.prems s have h: "holds_trailers (dlis_segment_attributes (seg_attrs h)) b"
    and r: "chain_holds_trailers segs" by simp_all
  let ?a = "dlis_segment_attributes (seg_attrs h)"
  from strip_tail_body[OF h, of cat] have st: "strip_tail ?a (cat @ b) = Inr (cat @ strip_body ?a b)"
    and l1: "length (strip_body ?a b) + stripped ?a b = length b"
    by simp_all
  from Cons.IH[OF r, of "cat @ strip_body ?a b"]
  have sc: "strip_chain (cat @ strip_body ?a b) segs = Inr (cat @ strip_body ?a b @ assemble_bodies segs)"
    and l2: "length (assemble_bodies segs) + trailer_bytes segs = body_bytes segs"
    by simp_all
  from l1 l2 have "length (strip_body ?a b) + length (assemble_bodies segs)
      + (stripped ?a b + trailer_bytes segs) = length b + body_bytes segs"
    by arith
  with st sc show ?case
    unfolding s by simp
qed

subsection \<open>Evaluating the loops on concrete streams\<close>

lemma getbytes_plain:
  "unget fd = None \<Longrightarrow> offset fd + n \<le> length (data fd) \<Longrightarrow>
     getbytes n fd = Inr (take n (drop (offset fd) (data fd)), fd\<lparr>offset := offset fd + n\<rparr>)"
  by (cases fd; cases "n = 0") (auto simp: getbytes_def fread_def pending_def Let_def)

lemmas stream_eval = segment_header_def visible_length_def getbytes_plain
  dlis_lrsh_def dlis_vrl_def dlis_segment_attributes_def flag_def fseek_cur_def
  ftell_def fgetpos_def

lemma mark_loop_numeral:
  "mark_loop (numeral k) esc fp rem bm ws = mark_loop (Suc (pred_numeral k)) esc fp rem bm ws"
  by (simp add: numeral_eq_Suc)

lemma segment_chain_numeral:
  "segment_chain (numeral k) esc fp rem ws = segment_chain (Suc (pred_numeral k)) esc fp rem ws"
  by (simp add: numeral_eq_Suc)

lemma cat_loop_numeral:
  "cat_loop chk (numeral k) esc fp rem cat ws = cat_loop chk (Suc (pred_numeral k)) esc fp rem cat ws"
  by (simp add: numeral_eq_Suc)

lemma record_segments_numeral:
  "record_segments chk (numeral k) esc fp rem ws = record_segments chk (Suc (pred_numeral k)) esc fp rem ws"
  by (simp add: numeral_eq_Suc)

lemmas fuel_numeral = mark_loop_numeral segment_chain_numeral cat_loop_numeral record_segments_numeral

subsection \<open>The record indexer\<close>

text \<open>
  C3. The indexer should fail when a segment length drives the residual below zero. It does
  not: with 4 bytes left in the visible record and a segment of length 8, \<open>mark\<close> returns
  the bookmark together with the residual \<open>- 4\<close>, whereas \<open>catrecord\<close>, started at the same
  position with the same residual, raises \<^verbatim>\<open>underflow in cat-record\<close> (core.cpp 239-240).
\<close>

theorem mark_returns_underflowed_residual:
  "mark 1 (\<lambda>msg. False) \<lparr>data = [0, 8, 0, 0, 1, 2, 3, 4], offset = 0, unget = None, eofind = False\<rparr> 4 []
     = Some (Inr ((\<lparr>pos = 0, residual = 4, isexplicit = 0\<rparr>, - 4),
                  \<lparr>data = [0, 8, 0, 0, 1, 2, 3, 4], offset = 8, unget = None, eofind = False\<rparr>, []))
   \<and> catrecord 1 (\<lambda>msg. False) \<lparr>data = [0, 8, 0, 0, 1, 2, 3, 4], offset = 0, unget = None, eofind = False\<rparr> 4 []
     = Some (Inl (ValueError ''underflow in cat-record''))"
  by (simp add: mark_def catrecord_def stream_eval)

text \<open>
  C4, as stated, fails: the chain below has a first segment with the explicit-formatting
  flag set and a successor, and a second segment with the flag clear. \<open>mark\<close> raises
  nothing and returns a bookmark whose flag is 0, the flag of the second segment.
\<close>

theorem mark_flag_counterexample:
  "explicit_formatting (dlis_segment_attributes (seg_attrs \<lparr>seg_attrs = 0xA0, seg_len = 6, seg_type = 0\<rparr>)) = 1
   \<and> segment_chain 2 (\<lambda>msg. False)
        \<lparr>data = [0, 6, 0xA0, 0, 1, 2, 0, 6, 0x40, 0, 3, 4], offset = 0, unget = None, eofind = False\<rparr> 12 []
     = Some [\<lparr>seg_attrs = 0xA0, seg_len = 6, seg_type = 0\<rparr>, \<lparr>seg_attrs = 0x40, seg_len = 6, seg_type = 0\<rparr>]
   \<and> mark 2 (\<lambda>msg. False)
        \<lparr>data = [0, 6, 0xA0, 0, 1, 2, 0, 6, 0x40, 0, 3, 4], offset = 0, unget = None, eofind = False\<rparr> 12 []
     = Some (Inr ((\<lparr>pos = 0, residual = 12, isexplicit = 0\<rparr>, 0),
                  \<lparr>data = [0, 6, 0xA0, 0, 1, 2, 0, 6, 0x40, 0, 3, 4], offset = 12, unget = None, eofind = False\<rparr>, []))"
  by (simp add: mark_def stream_eval fuel_numeral)

lemma mark_loop_chain:
  "segment_chain n esc fp rem ws = Some segs \<Longrightarrow>
     segs \<noteq> [] \<and>
     (\<exists>r fp' ws'. mark_loop n esc fp rem bm ws =
        Some (Inr ((bm\<lparr>isexplicit := explicit_formatting (dlis_segment_attributes (seg_attrs (last segs)))\<rparr>, r),
                   fp', ws')))"
proof (induction n arbitrary: fp rem ws bm segs)
  case 0
  then show ?case by simp
next
  case (Suc n)
  show ?case
  proof (cases "rem > 0")
    case True
    from Suc.prems True obtain seg fp1 where hdr: "segment_header fp = Inr (seg, fp1)"
      by (auto split: sum.splits)
    from Suc.prems True hdr obtain fp2 where sk: "fseek_cur (seg_len seg - 4) fp1 = Inr fp2"
      by (auto split: sum.splits)
    let ?a = "dlis_segment_attributes (seg_attrs seg)"
    show ?thesis
    proof (cases "has_successor ?a = 0")
      case nosucc: True
      with Suc.prems True hdr sk have "segs = [seg]" by simp
      with True hdr sk nosucc show ?thesis by (simp add: Let_def)
    next
      case succ: False
      with Suc.prems True hdr sk obtain segs' where
        ch: "segment_chain n esc fp2 (rem - seg_len seg) ws = Some segs'" and segs: "segs = seg # segs'"
        by auto
      from Suc.IH[OF ch, of "bm\<lparr>isexplicit := explicit_formatting ?a\<rparr>"] segs True hdr sk succ
      show ?thesis by (auto simp: Let_def)
    qed
  next
    case False
    from Suc.prems False obtain len fp1 ws1 where
      v: "visible_length esc fp ws = Inr (len, fp1, ws1)"
      and ch: "segment_chain n esc fp1 (len - 4) ws1 = Some segs"
      by (auto split: sum.splits)
    from Suc.IH[OF ch, of bm] False v show ?thesis by simp
  qed
qed

text \<open>
  C4, amended. \<open>mark\<close> stores the explicit-formatting flag of every segment it passes into
  the bookmark, each overwriting the one before. So for every chain that can be traversed,
  whatever the flags of its segments, \<open>mark\<close> returns, and the flag of the bookmark is the
  flag of the last segment of the chain; position and residual are those at the call.
\<close>

theorem mark_flag_of_last_segment:
  assumes "segment_chain n esc fp remaining ws = Some segs"
  shows "\<exists>r fp' ws'. mark n esc fp remaining ws =
           Some (Inr ((\<lparr>pos = fgetpos fp, residual = remaining,
                         isexplicit = explicit_formatting (dlis_segment_attributes (seg_attrs (last segs)))\<rparr>, r),
                      fp', ws'))"
  using mark_loop_chain[OF assms, of "\<lparr>pos = fgetpos fp, residual = remaining, isexplicit = 0\<rparr>"]
  by (simp add: mark_def)

text \<open>A chain of two segments that disagree: the flag returned is the second one's.\<close>

theorem mark_flag_of_last_segment_witness:
  "\<exists>r fp' ws'. mark 2 (\<lambda>msg. False)
        \<lparr>data = [0, 6, 0x20, 0, 1, 2, 0, 6, 0xC0, 0, 3, 4], offset = 0, unget = None, eofind = False\<rparr> 12 []
     = Some (Inr ((\<lparr>pos = 0, residual = 12, isexplicit = 1\<rparr>, r), fp', ws'))"
proof -
  have "segment_chain 2 (\<lambda>msg. False)
        \<lparr>data = [0, 6, 0x20, 0, 1, 2, 0, 6, 0xC0, 0, 3, 4], offset = 0, unget = None, eofind = False\<rparr> 12 []
     = Some [\<lparr>seg_attrs = 0x20, seg_len = 6, seg_type = 0\<rparr>, \<lparr>seg_attrs = 0xC0, seg_len = 6, seg_type = 0\<rparr>]"
    by (simp add: stream_eval fuel_numeral)
  from mark_flag_of_last_segment[OF this] show ?thesis
    by (simp add: stream_eval)
qed

subsection \<open>The record assembler\<close>

text \<open>
  C5, as stated, fails: a segment whose attributes have the encryption flag set is
  assembled without any error, by \<open>catrecord\<close> and by \<open>getrecord\<close> alike, and its four
  payload bytes are the vector returned. Neither function has a parameter to opt in.
\<close>

theorem catrecord_encrypted_counterexample:
  "is_encrypted (dlis_segment_attributes 0x10) = 1
   \<and> catrecord 1 (\<lambda>msg. False)
        \<lparr>data = [0, 8, 0x10, 0, 0xDE, 0xAD, 0xBE, 0xEF], offset = 0, unget = None, eofind = False\<rparr> 8 []
     = Some (Inr ([0xDE, 0xAD, 0xBE, 0xEF],
                  \<lparr>data = [0, 8, 0x10, 0, 0xDE, 0xAD, 0xBE, 0xEF], offset = 8, unget = None, eofind = False\<rparr>, []))
   \<and> getrecord 1 (\<lambda>msg. False)
        \<lparr>data = [0, 8, 0x10, 0, 0xDE, 0xAD, 0xBE, 0xEF], offset = 0, unget = None, eofind = False\<rparr> 8 []
     = Some (Inr ([0xDE, 0xAD, 0xBE, 0xEF],
                  \<lparr>data = [0, 8, 0x10, 0, 0xDE, 0xAD, 0xBE, 0xEF], offset = 8, unget = None, eofind = False\<rparr>, []))"
  by code_simp

text \<open>
  C5, amended. The assembler decodes the encryption flag and never consults it. Take two
  records, read from any two positions of any two streams, whose chains of segments agree in
  their bodies and in every attribute flag other than the encryption flag, whichever
  segments of either chain have that flag set. Then \<open>catrecord\<close> hands back the same result
  for both, the same vector or the same error, and so does \<open>getrecord\<close>: the bytes of an
  encrypted segment are in the vector like those of any other.
\<close>

theorem catrecord_ignores_encryption:
  assumes "record_segments chk n esc fd remaining ws = Some segs"
    and "record_segments chk n2 esc2 fd2 remaining2 ws2 = Some segs2"
    and "map but_encryption segs = map but_encryption segs2"
  shows "assembled (if chk then catrecord n esc fd remaining ws else getrecord n esc fd remaining ws)
       = assembled (if chk then catrecord n2 esc2 fd2 remaining2 ws2
                    else getrecord n2 esc2 fd2 remaining2 ws2)"
proof -
  have "assembled (cat_loop chk n esc fd remaining [] ws)
      = assembled (cat_loop chk n2 esc2 fd2 remaining2 [] ws2)"
    by (simp only: cat_loop_chain[OF assms(1)] cat_loop_chain[OF assms(2)]
          strip_chain_agree[OF assms(3)])
  then show ?thesis
    by (cases chk) (simp_all add: catrecord_def getrecord_def)
qed

text \<open>
  A record of two segments behind a visible record label, read with residual 0: once with
  no encryption flag, once with the flag on both segments. The same five bytes.
\<close>

theorem catrecord_ignores_encryption_witness:
  "assembled (catrecord 3 (\<lambda>msg. False)
        \<lparr>data = [0, 0x11, 0xFF, 1,  0, 6, 0x20, 0, 0xA1, 0xA2,  0, 7, 0x40, 0, 0xB1, 0xB2, 0xB3],
          offset = 0, unget = None, eofind = False\<rparr> 0 [])
     = Some (Inr [0xA1, 0xA2, 0xB1, 0xB2, 0xB3])
   \<and> assembled (catrecord 3 (\<lambda>msg. False)
        \<lparr>data = [0, 0x11, 0xFF, 1,  0, 6, 0x30, 0, 0xA1, 0xA2,  0, 7, 0x50, 0, 0xB1, 0xB2, 0xB3],
          offset = 0, unget = None, eofind = False\<rparr> 0 [])
     = Some (Inr [0xA1, 0xA2, 0xB1, 0xB2, 0xB3])"
proof -
  have r1: "record_segments True 3 (\<lambda>msg. False)
        \<lparr>data = [0, 0x11, 0xFF, 1,  0, 6, 0x20, 0, 0xA1, 0xA2,  0, 7, 0x40, 0, 0xB1, 0xB2, 0xB3],
          offset = 0, unget = None, eofind = False\<rparr> 0 []
     = Some [(\<lparr>seg_attrs = 0x20, seg_len = 6, seg_type = 0\<rparr>, [0xA1, 0xA2]),
             (\<lparr>seg_attrs = 0x40, seg_len = 7, seg_type = 0\<rparr>, [0xB1, 0xB2, 0xB3])]"
    by code_simp
  have r2: "record_segments True 3 (\<lambda>msg. False)
        \<lparr>data = [0, 0x11, 0xFF, 1,  0, 6, 0x30, 0, 0xA1, 0xA2,  0, 7, 0x50, 0, 0xB1, 0xB2, 0xB3],
          offset = 0, unget = None, eofind = False\<rparr> 0 []
     = Some [(\<lparr>seg_attrs = 0x30, seg_len = 6, seg_type = 0\<rparr>, [0xA1, 0xA2]),
             (\<lparr>seg_attrs = 0x50, seg_len = 7, seg_type = 0\<rparr>, [0xB1, 0xB2, 0xB3])]"
    by code_simp
  have a: "map but_encryption
             [(\<lparr>seg_attrs = 0x20, seg_len = 6, seg_type = 0\<rparr>, [0xA1, 0xA2]),
              (\<lparr>seg_attrs = 0x40, seg_len = 7, seg_type = 0\<rparr>, [0xB1, 0xB2, 0xB3])]
         = map but_encryption
             [(\<lparr>seg_attrs = 0x30, seg_len = 6, seg_type = 0\<rparr>, [0xA1, 0xA2]),
              (\<lparr>seg_attrs = 0x50, seg_len = 7, seg_type = 0\<rparr>, [0xB1, 0xB2, 0xB3])]"
    by (simp add: but_encryption_def)
  have e: "assembled (catrecord 3 (\<lambda>msg. False)
        \<lparr>data = [0, 0x11, 0xFF, 1,  0, 6, 0x20, 0, 0xA1, 0xA2,  0, 7, 0x40, 0, 0xB1, 0xB2, 0xB3],
          offset = 0, unget = None, eofind = False\<rparr> 0 [])
     = Some (Inr [0xA1, 0xA2, 0xB1, 0xB2, 0xB3])"
    by code_simp
  from catrecord_ignores_encryption[OF r1 r2 a] e show ?thesis
    by simp
qed

text \<open>
  C6, as stated, fails: the erasures take their bytes off the end of the whole vector, not
  off the segment body. Below, the second segment announces a trailing length and has a body
  of one byte: the two bytes erased are that byte and the last byte of the first body, so the
  vector returned is \<open>[1, 2]\<close>, where stripping each body gives \<open>[1, 2, 3]\<close>.
\<close>

theorem assembled_bodies_counterexample:
  "catrecord 2 (\<lambda>msg. False)
        \<lparr>data = [0, 7, 0x20, 0, 1, 2, 3,  0, 5, 0x02, 0, 5], offset = 0, unget = None, eofind = False\<rparr> 12 []
     = Some (Inr ([1, 2],
                  \<lparr>data = [0, 7, 0x20, 0, 1, 2, 3,  0, 5, 0x02, 0, 5], offset = 12, unget = None, eofind = False\<rparr>, []))
   \<and> record_segments True 2 (\<lambda>msg. False)
        \<lparr>data = [0, 7, 0x20, 0, 1, 2, 3,  0, 5, 0x02, 0, 5], offset = 0, unget = None, eofind = False\<rparr> 12 []
     = Some [(\<lparr>seg_attrs = 0x20, seg_len = 7, seg_type = 0\<rparr>, [1, 2, 3]),
             (\<lparr>seg_attrs = 0x02, seg_len = 5, seg_type = 0\<rparr>, [5])]
   \<and> assemble_bodies [(\<lparr>seg_attrs = 0x20, seg_len = 7, seg_type = 0\<rparr>, [1, 2, 3]),
                       (\<lparr>seg_attrs = 0x02, seg_len = 5, seg_type = 0\<rparr>, [5])] = [1, 2, 3]"
  by code_simp

text \<open>
  C6, amended. For every record whose chain of segments can be read and in which every body
  holds the trailers that its flags announce, the assembler returns, and the vector it
  returns is the bodies of the chain one after the other, each stripped from its tail in the
  order trailing length (the last 2 bytes), checksum (the last 2 bytes), padding (the last
  byte left is the count, and that many bytes go, the count byte among them); its length is
  the sum of the body lengths less the bytes stripped. With \<open>chk\<close> true this is
  \<open>catrecord\<close> of core.cpp, with \<open>chk\<close> false \<open>getrecord\<close> of ext.cpp.
\<close>

theorem assembled_length:
  assumes "record_segments chk n esc fp remaining ws = Some segs"
    and "chain_holds_trailers segs"
  shows "\<exists>fp' ws'.
           (if chk then catrecord n esc fp remaining ws else getrecord n esc fp remaining ws)
             = Some (Inr (assemble_bodies segs, fp', ws'))
         \<and> length (assemble_bodies segs) + trailer_bytes segs = body_bytes segs"
proof -
  from cat_loop_chain[OF assms(1), of "[]"] strip_chain_bodies[OF assms(2), of "[]"]
  have "assembled (cat_loop chk n esc fp remaining [] ws) = Some (Inr (assemble_bodies segs))"
    and l: "length (assemble_bodies segs) + trailer_bytes segs = body_bytes segs"
    by simp_all
  from assembled_Inr[OF this(1)] l show ?thesis
    by (auto simp: catrecord_def getrecord_def)
qed

text \<open>
  One visible record with two segments: the first with padding (count 2), the second with
  checksum and trailing length. Nine body bytes, six stripped, three returned.
\<close>

theorem assembled_length_witness:
  "catrecord 3 (\<lambda>msg. False)
        \<lparr>data = [0, 0x15, 0xFF, 1,  0, 8, 0xA1, 0,  0x11, 0x22, 0x33, 2,  0, 9, 0x46, 0,  0x44, 0xC1, 0xC2, 0, 9],
          offset = 0, unget = None, eofind = False\<rparr> 0 []
     = Some (Inr ([0x11, 0x22, 0x44],
          \<lparr>data = [0, 0x15, 0xFF, 1,  0, 8, 0xA1, 0,  0x11, 0x22, 0x33, 2,  0, 9, 0x46, 0,  0x44, 0xC1, 0xC2, 0, 9],
            offset = 21, unget = None, eofind = False\<rparr>, []))
   \<and> assemble_bodies
        [(\<lparr>seg_attrs = 0xA1, seg_len = 8, seg_type = 0\<rparr>, [0x11, 0x22, 0x33, 2]),
         (\<lparr>seg_attrs = 0x46, seg_len = 9, seg_type = 0\<rparr>, [0x44, 0xC1, 0xC2, 0, 9])]
       = [0x11, 0x22, 0x44]
   \<and> body_bytes
        [(\<lparr>seg_attrs = 0xA1, seg_len = 8, seg_type = 0\<rparr>, [0x11, 0x22, 0x33, 2]),
         (\<lparr>seg_attrs = 0x46, seg_len = 9, seg_type = 0\<rparr>, [0x44, 0xC1, 0xC2, 0, 9])] = 9
   \<and> trailer_bytes
        [(\<lparr>seg_attrs = 0xA1, seg_len = 8, seg_type = 0\<rparr>, [0x11, 0x22, 0x33, 2]),
         (\<lparr>seg_attrs = 0x46, seg_len = 9, seg_type = 0\<rparr>, [0x44, 0xC1, 0xC2, 0, 9])] = 6"
proof -
  have r: "record_segments True 3 (\<lambda>msg. False)
        \<lparr>data = [0, 0x15, 0xFF, 1,  0, 8, 0xA1, 0,  0x11, 0x22, 0x33, 2,  0, 9, 0x46, 0,  0x44, 0xC1, 0xC2, 0, 9],
          offset = 0, unget = None, eofind = False\<rparr> 0 []
     = Some [(\<lparr>seg_attrs = 0xA1, seg_len = 8, seg_type = 0\<rparr>, [0x11, 0x22, 0x33, 2]),
             (\<lparr>seg_attrs = 0x46, seg_len = 9, seg_type = 0\<rparr>, [0x44, 0xC1, 0xC2, 0, 9])]"
    by code_simp
  have h: "chain_holds_trailers
        [(\<lparr>seg_attrs = 0xA1, seg_len = 8, seg_type = 0\<rparr>, [0x11, 0x22, 0x33, 2]),
         (\<lparr>seg_attrs = 0x46, seg_len = 9, seg_type = 0\<rparr>, [0x44, 0xC1, 0xC2, 0, 9])]"
    by code_simp
  have e: "catrecord 3 (\<lambda>msg. False)
        \<lparr>data = [0, 0x15, 0xFF, 1,  0, 8, 0xA1, 0,  0x11, 0x22, 0x33, 2,  0, 9, 0x46, 0,  0x44, 0xC1, 0xC2, 0, 9],
          offset = 0, unget = None, eofind = False\<rparr> 0 []
     = Some (Inr ([0x11, 0x22, 0x44],
          \<lparr>data = [0, 0x15, 0xFF, 1,  0, 8, 0xA1, 0,  0x11, 0x22, 0x33, 2,  0, 9, 0x46, 0,  0x44, 0xC1, 0xC2, 0, 9],
            offset = 21, unget = None, eofind = False\<rparr>, []))"
    by code_simp
  have b: "body_bytes
        [(\<lparr>seg_attrs = 0xA1, seg_len = 8, seg_type = 0\<rparr>, [0x11, 0x22, 0x33, 2]),
         (\<lparr>seg_attrs = 0x46, seg_len = 9, seg_type = 0\<rparr>, [0x44, 0xC1, 0xC2, 0, 9])] = 9"
    by simp
  have t: "trailer_bytes
        [(\<lparr>seg_attrs = 0xA1, seg_len = 8, seg_type = 0\<rparr>, [0x11, 0x22, 0x33, 2]),
         (\<lparr>seg_attrs = 0x46, seg_len = 9, seg_type = 0\<rparr>, [0x44, 0xC1, 0xC2, 0, 9])] = 6"
    by code_simp
  from assembled_length[OF r h] obtain fp' ws' where
    "catrecord 3 (\<lambda>msg. False)
        \<lparr>data = [0, 0x15, 0xFF, 1,  0, 8, 0xA1, 0,  0x11, 0x22, 0x33, 2,  0, 9, 0x46, 0,  0x44, 0xC1, 0xC2, 0, 9],
          offset = 0, unget = None, eofind = False\<rparr> 0 []
     = Some (Inr (assemble_bodies
        [(\<lparr>seg_attrs = 0xA1, seg_len = 8, seg_type = 0\<rparr>, [0x11, 0x22, 0x33, 2]),
         (\<lparr>seg_attrs = 0x46, seg_len = 9, seg_type = 0\<rparr>, [0x44, 0xC1, 0xC2, 0, 9])], fp', ws'))"
    by (simp only: if_True) blast
  with e have a: "assemble_bodies
        [(\<lparr>seg_attrs = 0xA1, seg_len = 8, seg_type = 0\<rparr>, [0x11, 0x22, 0x33, 2]),
         (\<lparr>seg_attrs = 0x46, seg_len = 9, seg_type = 0\<rparr>, [0x44, 0xC1, 0xC2, 0, 9])]
       = [0x11, 0x22, 0x44]"
    by (simp only: option.inject sum.inject prod.inject)
  from e a b t show ?thesis
    by (simp only: simp_thms)
qed

subsection \<open>The primitive decoders\<close>








































text \<open>
  The conversion to \<^verbatim>\<open>str\<close> at work: \<^verbatim>\<open>41\<close>, \<^verbatim>\<open>C3 A9\<close> and \<^verbatim>\<open>E2 82 AC\<close> are UTF-8; a lone
  \<^verbatim>\<open>FF\<close>, an overlong form, a surrogate, a value above U+10FFFF and a sequence cut short
  are not. An IDENT holding \<^verbatim>\<open>FF\<close> is decoded by
  \<open>ident\<close>, and refused when \<^verbatim>\<open>array\<close> appends it to the list.
\<close>

lemma utf8_examples:
  "utf8 [0x41, 0xC3, 0xA9, 0xE2, 0x82, 0xAC]
   \<and> \<not> utf8 [0xFF] \<and> \<not> utf8 [0xC0, 0x80] \<and> \<not> utf8 [0xED, 0xA0, 0x80]
   \<and> \<not> utf8 [0xF4, 0x90, 0x80, 0x80] \<and> \<not> utf8 [0xE2, 0x82]"
  by code_simp

lemma ident_not_utf8:
  "ident [1, 0xFF] 0 = Inr ([0xFF], 2)
   \<and> array 1 DLIS_IDENT [1, 0xFF] 0 = Inl UnicodeDecodeError
   \<and> ext_array 1 DLIS_IDENT [1, 0xFF] 0 = Inl UnicodeDecodeError"
  by code_simp




subsection \<open>Arrays of values\<close>

text \<open>
  The loop returns the list \<open>l0\<close> extended by \<open>n\<close> values exactly when there are cursors
  \<open>cs\<close>, from the cursor given to the cursor returned, such that the switch decodes the
  \<open>i\<close>-th value at the \<open>i\<close>-th cursor and leaves the next one.
\<close>

lemma array_loop_sequence:
  "array_loop sw n reprc cat xs l0 = Inr (l', xs') \<longleftrightarrow>
     (\<exists>l cs. l' = l0 @ l \<and> length l = n \<and> length cs = Suc n \<and> cs ! 0 = xs \<and> cs ! n = xs'
            \<and> (\<forall>i < n. sw reprc cat (cs ! i) = Inr (l ! i, cs ! Suc i)))"
proof (induction n arbitrary: xs l0)
  case 0
  show ?case
  proof
    assume "array_loop sw 0 reprc cat xs l0 = Inr (l', xs')"
    then have "l' = l0 @ [] \<and> length ([] :: pyval list) = 0 \<and> length [xs] = Suc 0
        \<and> [xs] ! 0 = xs \<and> [xs] ! 0 = xs'
        \<and> (\<forall>i < 0. sw reprc cat ([xs] ! i) = Inr ([] ! i, [xs] ! Suc i))"
      by simp
    then show "\<exists>l cs. l' = l0 @ l \<and> length l = 0 \<and> length cs = Suc 0 \<and> cs ! 0 = xs \<and> cs ! 0 = xs'
            \<and> (\<forall>i < 0. sw reprc cat (cs ! i) = Inr (l ! i, cs ! Suc i))"
      by blast
  next
    assume "\<exists>l cs. l' = l0 @ l \<and> length l = 0 \<and> length cs = Suc 0 \<and> cs ! 0 = xs \<and> cs ! 0 = xs'
            \<and> (\<forall>i < 0. sw reprc cat (cs ! i) = Inr (l ! i, cs ! Suc i))"
    then show "array_loop sw 0 reprc cat xs l0 = Inr (l', xs')"
      by auto
  qed
next
  case (Suc n)
  show ?case
  proof
    assume "array_loop sw (Suc n) reprc cat xs l0 = Inr (l', xs')"
    then obtain v xs1 where a: "sw reprc cat xs = Inr (v, xs1)"
      and b: "array_loop sw n reprc cat xs1 (l0 @ [v]) = Inr (l', xs')"
      by (auto split: sum.splits)
    from b obtain l cs where l: "l' = (l0 @ [v]) @ l" "length l = n" "length cs = Suc n"
      "cs ! 0 = xs1" "cs ! n = xs'"
      and e: "\<forall>i < n. sw reprc cat (cs ! i) = Inr (l ! i, cs ! Suc i)"
      unfolding Suc.IH by blast
    have "\<forall>i < Suc n. sw reprc cat ((xs # cs) ! i) = Inr ((v # l) ! i, (xs # cs) ! Suc i)"
    proof (intro allI impI)
      fix i assume i: "i < Suc n"
      show "sw reprc cat ((xs # cs) ! i) = Inr ((v # l) ! i, (xs # cs) ! Suc i)"
      proof (cases i)
        case 0
        with a l show ?thesis by simp
      next
        case (Suc j)
        with i e show ?thesis by simp
      qed
    qed
    with l have "l' = l0 @ (v # l) \<and> length (v # l) = Suc n \<and> length (xs # cs) = Suc (Suc n)
        \<and> (xs # cs) ! 0 = xs \<and> (xs # cs) ! Suc n = xs'
        \<and> (\<forall>i < Suc n. sw reprc cat ((xs # cs) ! i) = Inr ((v # l) ! i, (xs # cs) ! Suc i))"
      by simp
    then show "\<exists>l cs. l' = l0 @ l \<and> length l = Suc n \<and> length cs = Suc (Suc n) \<and> cs ! 0 = xs
            \<and> cs ! Suc n = xs'
            \<and> (\<forall>i < Suc n. sw reprc cat (cs ! i) = Inr (l ! i, cs ! Suc i))"
      by blast
  next
    assume "\<exists>l cs. l' = l0 @ l \<and> length l = Suc n \<and> length cs = Suc (Suc n) \<and> cs ! 0 = xs
            \<and> cs ! Suc n = xs'
            \<and> (\<forall>i < Suc n. sw reprc cat (cs ! i) = Inr (l ! i, cs ! Suc i))"
    then obtain l cs where l: "l' = l0 @ l" "length l = Suc n" "length cs = Suc (Suc n)"
      "cs ! 0 = xs" "cs ! Suc n = xs'"
      and e: "\<forall>i < Suc n. sw reprc cat (cs ! i) = Inr (l ! i, cs ! Suc i)"
      by blast
    from l obtain v lt where lv: "l = v # lt" by (cases l) auto
    from l obtain c ct where cv: "cs = c # ct" by (cases cs) auto
    from l cv have c: "c = xs" by simp
    from e have "sw reprc cat (cs ! 0) = Inr (l ! 0, cs ! Suc 0)" by blast
    with lv cv c have a: "sw reprc cat xs = Inr (v, ct ! 0)" by simp
    have "\<forall>i < n. sw reprc cat (ct ! i) = Inr (lt ! i, ct ! Suc i)"
    proof (intro allI impI)
      fix i assume "i < n"
      then have "Suc i < Suc n" by simp
      with e have "sw reprc cat (cs ! Suc i) = Inr (l ! Suc i, cs ! Suc (Suc i))" by blast
      with lv cv show "sw reprc cat (ct ! i) = Inr (lt ! i, ct ! Suc i)" by simp
    qed
    with l lv cv have "l' = (l0 @ [v]) @ lt \<and> length lt = n \<and> length ct = Suc n
        \<and> ct ! 0 = ct ! 0 \<and> ct ! n = xs'
        \<and> (\<forall>i < n. sw reprc cat (ct ! i) = Inr (lt ! i, ct ! Suc i))"
      by simp
    then have "array_loop sw n reprc cat (ct ! 0) (l0 @ [v]) = Inr (l', xs')"
      unfolding Suc.IH by blast
    with a show "array_loop sw (Suc n) reprc cat xs l0 = Inr (l', xs')"
      by simp
  qed
qed

text \<open>
  C7, as stated, fails for \<^verbatim>\<open>array\<close> of ext.cpp: with count 1 it returns the text itself,
  not a list holding it.
\<close>

theorem ext_array_unwraps_counterexample:
  "ext_array 1 DLIS_IDENT [1, 0x41] 0 = Inr (PStr ''A'', 2)"
  by code_simp

text \<open>
  C7, amended. \<^verbatim>\<open>array\<close> of core.cpp returns \<open>v\<close> and leaves the cursor \<open>xs'\<close> exactly when
  \<open>v\<close> is a list of \<open>count\<close> values, the \<open>i\<close>-th of which is what the switch of core.cpp
  decodes at the cursor that the values before it have left, and \<open>xs'\<close> is the cursor after
  the last: an ordered sequence for every count, 1 included. \<^verbatim>\<open>array\<close> of ext.cpp builds
  such a list from the conversions of its own switch, and returns the list except when the
  count is 1, where it returns the one element of the list.
\<close>

theorem array_sequence_form:
  "(array count reprc cat xs = Inr (v, xs') \<longleftrightarrow>
      (\<exists>l cs. v = PList l \<and> length l = nat count \<and> length cs = Suc (nat count)
           \<and> cs ! 0 = xs \<and> cs ! nat count = xs'
           \<and> (\<forall>i < nat count. element reprc cat (cs ! i) = Inr (l ! i, cs ! Suc i))))
   \<and> (ext_array count reprc cat xs = Inr (w, xs'') \<longleftrightarrow>
      (\<exists>l cs. w = (if count = 1 then l ! 0 else PList l)
           \<and> length l = nat count \<and> length cs = Suc (nat count)
           \<and> cs ! 0 = xs \<and> cs ! nat count = xs''
           \<and> (\<forall>i < nat count. ext_element reprc cat (cs ! i) = Inr (l ! i, cs ! Suc i))))"
proof
  have "array count reprc cat xs = Inr (v, xs')
      \<longleftrightarrow> (\<exists>l. v = PList l \<and> array_loop element (nat count) reprc cat xs [] = Inr (l, xs'))"
    by (auto simp: array_def split: sum.splits)
  also have "\<dots> \<longleftrightarrow> (\<exists>l cs. v = PList l \<and> length l = nat count \<and> length cs = Suc (nat count)
           \<and> cs ! 0 = xs \<and> cs ! nat count = xs'
           \<and> (\<forall>i < nat count. element reprc cat (cs ! i) = Inr (l ! i, cs ! Suc i)))"
    unfolding array_loop_sequence by auto
  finally show "array count reprc cat xs = Inr (v, xs') \<longleftrightarrow>
      (\<exists>l cs. v = PList l \<and> length l = nat count \<and> length cs = Suc (nat count)
           \<and> cs ! 0 = xs \<and> cs ! nat count = xs'
           \<and> (\<forall>i < nat count. element reprc cat (cs ! i) = Inr (l ! i, cs ! Suc i)))" .
next
  have "ext_array count reprc cat xs = Inr (w, xs'')
      \<longleftrightarrow> (\<exists>l. w = (if count = 1 then l ! 0 else PList l)
               \<and> array_loop ext_element (nat count) reprc cat xs [] = Inr (l, xs''))"
    by (auto simp: ext_array_def split: sum.splits)
  also have "\<dots> \<longleftrightarrow> (\<exists>l cs. w = (if count = 1 then l ! 0 else PList l)
           \<and> length l = nat count \<and> length cs = Suc (nat count)
           \<and> cs ! 0 = xs \<and> cs ! nat count = xs''
           \<and> (\<forall>i < nat count. ext_element reprc cat (cs ! i) = Inr (l ! i, cs ! Suc i)))"
    unfolding array_loop_sequence by auto
  finally show "ext_array count reprc cat xs = Inr (w, xs'') \<longleftrightarrow>
      (\<exists>l cs. w = (if count = 1 then l ! 0 else PList l)
           \<and> length l = nat count \<and> length cs = Suc (nat count)
           \<and> cs ! 0 = xs \<and> cs ! nat count = xs''
           \<and> (\<forall>i < nat count. ext_element reprc cat (cs ! i) = Inr (l ! i, cs ! Suc i)))" .
qed

text \<open>
  Two UNORM values, decoded at the cursors 0 and 2: the theorem gives the list in that order
  from the two elements. And one IDENT through \<^verbatim>\<open>array\<close> of ext.cpp: the element, no list.
\<close>

theorem array_sequence_form_witness:
  "array 2 DLIS_UNORM [0, 1, 0, 2] 0 = Inr (PList [PInt 1, PInt 2], 4)
   \<and> ext_array 1 DLIS_IDENT [1, 0x41] 0 = Inr (PStr ''A'', 2)"
proof -
  have e0: "element DLIS_UNORM [0, 1, 0, 2] 0 = Inr (PInt 1, 2)"
    by code_simp
  have e1: "element DLIS_UNORM [0, 1, 0, 2] 2 = Inr (PInt 2, 4)"
    by code_simp
  have "\<forall>i < nat 2. element DLIS_UNORM [0, 1, 0, 2] ([0, 2, 4] ! i)
                       = Inr ([PInt 1, PInt 2] ! i, [0, 2, 4] ! Suc i)"
    using e0 e1 by (simp add: less_Suc_eq numeral_2_eq_2)
  then have "\<exists>l cs. PList [PInt 1, PInt 2] = PList l \<and> length l = nat 2 \<and> length cs = Suc (nat 2)
           \<and> cs ! 0 = 0 \<and> cs ! nat 2 = 4
           \<and> (\<forall>i < nat 2. element DLIS_UNORM [0, 1, 0, 2] (cs ! i) = Inr (l ! i, cs ! Suc i))"
    by (intro exI[of _ "[PInt 1, PInt 2]"] exI[of _ "[0, 2, 4]"]) simp
  with array_sequence_form[of 2 DLIS_UNORM "[0, 1, 0, 2]" 0 "PList [PInt 1, PInt 2]" 4]
  have a: "array 2 DLIS_UNORM [0, 1, 0, 2] 0 = Inr (PList [PInt 1, PInt 2], 4)"
    by blast
  have x0: "ext_element DLIS_IDENT [1, 0x41] 0 = Inr (PStr ''A'', 2)"
    by code_simp
  have "\<exists>l cs. PStr ''A'' = (if (1::int) = 1 then l ! 0 else PList l)
           \<and> length l = nat 1 \<and> length cs = Suc (nat 1)
           \<and> cs ! 0 = 0 \<and> cs ! nat 1 = 2
           \<and> (\<forall>i < nat 1. ext_element DLIS_IDENT [1, 0x41] (cs ! i) = Inr (l ! i, cs ! Suc i))"
    using x0 by (intro exI[of _ "[PStr ''A'']"] exI[of _ "[0, 2]"]) simp
  with array_sequence_form[of 1 DLIS_IDENT "[1, 0x41]" 0 _ _ "PStr ''A''" 2]
  have b: "ext_array 1 DLIS_IDENT [1, 0x41] 0 = Inr (PStr ''A'', 2)"
    by blast
  from a b show ?thesis by simp
qed

subsection \<open>The EFLR parser\<close>

lemma attrib_clear_label:
  "dlis_component_attrib (descriptor AND 0xEF) = (dlis_component_attrib descriptor)\<lparr>has_label := 0\<rparr>"
  by (simp add: dlis_component_attrib_def flag_def and.assoc)

lemma attribute_fields_label:
  "attribute_fields arr (f\<lparr>has_label := x\<rparr>) cat cur col = attribute_fields arr f cat cur col"
  unfolding attribute_fields_def by (simp cong: sum.case_cong)

text \<open>
  C9, as stated, fails: on a payload whose object attribute has the label flag set, the
  parse of core.cpp fails with \<^verbatim>\<open>error_already_set\<close> when the interpreter turns the warning
  into an exception, and the column loop of ext.cpp raises \<^verbatim>\<open>label in object attribute\<close>
  whatever the interpreter does.
\<close>

theorem stray_label_counterexample:
  "eflr 5 (\<lambda>msg. True) [0xF0, 1, 0x54,  0x30, 1, 0x41,  0x70, 0, 0, 1, 0x58,  0x31, 1, 0x4C, 1, 0x56] [] = Some (Inl ErrorAlreadySet)
   \<and> ext_object_attribute [0xF0, 1, 0x54,  0x30, 1, 0x41,  0x70, 0, 0, 1, 0x58,  0x31, 1, 0x4C, 1, 0x56] 0x31 12 [(''count'', PInt 1), (''reprc'', PInt 19), (''value'', PNone), (''label'', PStr ''A'')] = Inl (ValueError ''label in object attribute'')"
  by code_simp

text \<open>
  C9, amended. For an object attribute whose descriptor has the label flag set, core.cpp
  issues the warning; if the interpreter raises on it the parse fails, otherwise the IDENT is
  decoded and dropped and the attribute is decoded from the byte after it exactly as the
  same descriptor without the label flag would be, with the warning recorded. (A label that
  runs past the end of the payload is an undefined read, as with every decoder.) ext.cpp
  raises a value error instead.
\<close>

theorem stray_label_warns_and_skips:
  assumes "has_label (dlis_component_attrib descriptor) \<noteq> 0"
  shows "object_attribute esc cat descriptor cur col ws =
           (if esc ''found unexpected label in object attribute, possibly corrupted file. label''
            then Inl ErrorAlreadySet
            else (case ident cat cur of
                    Inl e \<Rightarrow> Inl e
                  | Inr (label, cur') \<Rightarrow>
                      object_attribute esc cat (descriptor AND 0xEF) cur' col
                        (ws @ [''found unexpected label in object attribute, possibly corrupted file. label''])))
       \<and> ext_object_attribute cat descriptor cur col = Inl (ValueError ''label in object attribute'')"
  using assms
  by (simp add: object_attribute_def ext_object_attribute_def runtime_warning_def
      attrib_clear_label attribute_fields_label split: sum.splits)

text \<open>
  The stray label \<^verbatim>\<open>L\<close> in front of the value \<^verbatim>\<open>V\<close>: one warning, the value decoded, the
  record parsed to its end.
\<close>

theorem stray_label_warns_and_skips_witness:
  "object_attribute (\<lambda>msg. False) [0xF0, 1, 0x54,  0x30, 1, 0x41,  0x70, 0, 0, 1, 0x58,  0x31, 1, 0x4C, 1, 0x56] 0x31 12 [(''count'', PInt 1), (''reprc'', PInt 19), (''value'', PNone), (''label'', PStr ''A'')] []
     = Inr ([(''count'', PInt 1), (''reprc'', PInt 19), (''value'', PList [PStr ''V'']), (''label'', PStr ''A'')],
            16, [''found unexpected label in object attribute, possibly corrupted file. label''])
   \<and> ident [0xF0, 1, 0x54,  0x30, 1, 0x41,  0x70, 0, 0, 1, 0x58,  0x31, 1, 0x4C, 1, 0x56] 12 = Inr ([0x4C], 14)
   \<and> object_attribute (\<lambda>msg. False) [0xF0, 1, 0x54,  0x30, 1, 0x41,  0x70, 0, 0, 1, 0x58,  0x31, 1, 0x4C, 1, 0x56] (0x31 AND 0xEF) 14 [(''count'', PInt 1), (''reprc'', PInt 19), (''value'', PNone), (''label'', PStr ''A'')] [''found unexpected label in object attribute, possibly corrupted file. label'']
     = Inr ([(''count'', PInt 1), (''reprc'', PInt 19), (''value'', PList [PStr ''V'']), (''label'', PStr ''A'')],
            16, [''found unexpected label in object attribute, possibly corrupted file. label''])
   \<and> eflr 5 (\<lambda>msg. False) [0xF0, 1, 0x54,  0x30, 1, 0x41,  0x70, 0, 0, 1, 0x58,  0x31, 1, 0x4C, 1, 0x56] []
     = Some (Inr (\<lparr>set_type = PStr ''T'', set_name = None, template_attribute = [0],
                    template_invariant = [],
                    objects = [(PTuple [PTuple [PInt 0, PInt 0, PStr ''X'']], [0])]\<rparr>,
                  [[(''count'', PInt 1), (''reprc'', PInt 19), (''value'', PList [PStr ''V'']),
                    (''label'', PStr ''A'')]],
                  [''found unexpected label in object attribute, possibly corrupted file. label'']))"
proof -
  have h: "has_label (dlis_component_attrib 0x31) \<noteq> 0"
    by (simp add: dlis_component_attrib_def flag_def)
  have e: "object_attribute (\<lambda>msg. False) [0xF0, 1, 0x54,  0x30, 1, 0x41,  0x70, 0, 0, 1, 0x58,  0x31, 1, 0x4C, 1, 0x56] 0x31 12 [(''count'', PInt 1), (''reprc'', PInt 19), (''value'', PNone), (''label'', PStr ''A'')] []
     = Inr ([(''count'', PInt 1), (''reprc'', PInt 19), (''value'', PList [PStr ''V'']), (''label'', PStr ''A'')],
            16, [''found unexpected label in object attribute, possibly corrupted file. label''])"
    by code_simp
  have i: "ident [0xF0, 1, 0x54,  0x30, 1, 0x41,  0x70, 0, 0, 1, 0x58,  0x31, 1, 0x4C, 1, 0x56] 12 = Inr ([0x4C], 14)"
    by code_simp
  have r: "eflr 5 (\<lambda>msg. False) [0xF0, 1, 0x54,  0x30, 1, 0x41,  0x70, 0, 0, 1, 0x58,  0x31, 1, 0x4C, 1, 0x56] []
     = Some (Inr (\<lparr>set_type = PStr ''T'', set_name = None, template_attribute = [0],
                    template_invariant = [],
                    objects = [(PTuple [PTuple [PInt 0, PInt 0, PStr ''X'']], [0])]\<rparr>,
                  [[(''count'', PInt 1), (''reprc'', PInt 19), (''value'', PList [PStr ''V'']),
                    (''label'', PStr ''A'')]],
                  [''found unexpected label in object attribute, possibly corrupted file. label'']))"
    by code_simp
  from stray_label_warns_and_skips[OF h, of "\<lambda>msg. False" "[0xF0, 1, 0x54,  0x30, 1, 0x41,  0x70, 0, 0, 1, 0x58,  0x31, 1, 0x4C, 1, 0x56]" 12 "[(''count'', PInt 1), (''reprc'', PInt 19), (''value'', PNone), (''label'', PStr ''A'')]" "[]"] e i r
  show ?thesis
    by simp
qed

text \<open>
  Every row of a parsed record is the vector of the template's own references followed by
  the invariant ones: the columns of a row are the dict objects of the template, not copies.
\<close>

lemma setitem_rows:
  "\<forall>(k, row) \<in> set objs. row = r \<Longrightarrow> \<forall>(k, row) \<in> set (setitem key r objs). row = r"
  by (induction objs) auto

lemma eflr_objects_rows:
  "eflr_objects n esc cat cols cur h ws objs = Some (Inr (objs', h', ws')) \<Longrightarrow>
   \<forall>(k, row) \<in> set objs. row = attribute cols @ invariant cols \<Longrightarrow>
   \<forall>(k, row) \<in> set objs'. row = attribute cols @ invariant cols"
proof (induction n arbitrary: cur h ws objs)
  case 0
  then show ?case by simp
next
  case (Suc n)
  show ?case
  proof (cases "cur = length cat")
    case True
    with Suc.prems show ?thesis by simp
  next
    case False
    from Suc.prems(1) False obtain name cur3 h1 ws1 where
      "eflr_objects n esc cat cols cur3 h1 ws1
         (setitem (PTuple [name]) (attribute cols @ invariant cols) objs) = Some (Inr (objs', h', ws'))"
      by (auto simp: Let_def split: if_splits sum.splits)
    from Suc.IH[OF this setitem_rows[OF Suc.prems(2)]] show ?thesis .
  qed
qed

lemma eflr_rows_are_template_references:
  assumes "eflr n esc cat ws = Some (Inr (r, h, ws'))"
  shows "\<forall>(k, row) \<in> set (objects r). row = template_attribute r @ template_invariant r"
proof -
  from assms obtain cols cur h0 objs where
    o: "eflr_objects n esc cat cols cur h0 ws [] = Some (Inr (objs, h, ws'))"
    and r: "objects r = objs" "template_attribute r = attribute cols"
      "template_invariant r = invariant cols"
    by (auto simp: eflr_def split: sum.splits prod.splits option.splits)
  from eflr_objects_rows[OF o] r show ?thesis by simp
qed

text \<open>
  C1. A row should be a copy of the template columns, so that decoding an object changes that
  row only. In core.cpp the row is a copy of the vector of references, and the writes go to
  the dicts referred to. On the payload below (one column \<^verbatim>\<open>A\<close> without a default; object
  \<^verbatim>\<open>X\<close> with the value \<^verbatim>\<open>V\<close>; object \<^verbatim>\<open>Y\<close> with no attribute) the template is parsed with the
  value \<^verbatim>\<open>None\<close>, and after the objects the template column and the rows of \<^verbatim>\<open>X\<close> and of
  \<^verbatim>\<open>Y\<close> are one dict, whose value is \<^verbatim>\<open>["V"]\<close>.
\<close>

theorem eflr_rows_share_template:
  "eflr_template 5 [0xF0, 1, 0x54,  0x30, 1, 0x41,  0x70, 0, 0, 1, 0x58,  0x21, 1, 0x56,  0x70, 0, 0, 1, 0x59] 3 [] \<lparr>attribute = [], invariant = []\<rparr>
     = Some (Inr (\<lparr>attribute = [0], invariant = []\<rparr>, 6,
                  [[(''count'', PInt 1), (''reprc'', PInt 19), (''value'', PNone),
                    (''label'', PStr ''A'')]]))
   \<and> eflr 5 (\<lambda>msg. False) [0xF0, 1, 0x54,  0x30, 1, 0x41,  0x70, 0, 0, 1, 0x58,  0x21, 1, 0x56,  0x70, 0, 0, 1, 0x59] []
     = Some (Inr (\<lparr>set_type = PStr ''T'', set_name = None, template_attribute = [0],
                    template_invariant = [],
                    objects = [(PTuple [PTuple [PInt 0, PInt 0, PStr ''X'']], [0]),
                               (PTuple [PTuple [PInt 0, PInt 0, PStr ''Y'']], [0])]\<rparr>,
                  [[(''count'', PInt 1), (''reprc'', PInt 19), (''value'', PList [PStr ''V'']),
                    (''label'', PStr ''A'')]],
                  []))"
  by code_simp

text \<open>
  C8. Rows have the template's columns followed by the invariant ones, and a column that an
  object does not override should keep the template default. The counts hold (two columns
  and one invariant, three references in each row); the defaults do not: the template is
  parsed with the defaults \<^verbatim>\<open>["D"]\<close> for \<^verbatim>\<open>A\<close> and \<^verbatim>\<open>["E"]\<close> for \<^verbatim>\<open>B\<close>, object \<^verbatim>\<open>X\<close> sets
  \<^verbatim>\<open>A\<close> to \<^verbatim>\<open>["V"]\<close> and marks \<^verbatim>\<open>B\<close> absent, and object \<^verbatim>\<open>Y\<close>, which overrides nothing, has
  \<^verbatim>\<open>["V"]\<close> and \<^verbatim>\<open>None\<close> in its row, as has the template returned.
\<close>

theorem eflr_defaults_lost:
  "eflr_template 5 [0xF0, 1, 0x54,  0x31, 1, 0x41, 1, 0x44,  0x50, 1, 0x49,  0x31, 1, 0x42, 1, 0x45,
         0x70, 0, 0, 1, 0x58,  0x21, 1, 0x56,  0x00,  0x70, 0, 0, 1, 0x59] 3 [] \<lparr>attribute = [], invariant = []\<rparr>
     = Some (Inr (\<lparr>attribute = [0, 2], invariant = [1]\<rparr>, 16,
                  [[(''count'', PInt 1), (''reprc'', PInt 19), (''value'', PList [PStr ''D'']),
                    (''label'', PStr ''A'')],
                   [(''count'', PInt 1), (''reprc'', PInt 19), (''value'', PNone),
                    (''label'', PStr ''I'')],
                   [(''count'', PInt 1), (''reprc'', PInt 19), (''value'', PList [PStr ''E'']),
                    (''label'', PStr ''B'')]]))
   \<and> eflr 5 (\<lambda>msg. False) [0xF0, 1, 0x54,  0x31, 1, 0x41, 1, 0x44,  0x50, 1, 0x49,  0x31, 1, 0x42, 1, 0x45,
         0x70, 0, 0, 1, 0x58,  0x21, 1, 0x56,  0x00,  0x70, 0, 0, 1, 0x59] []
     = Some (Inr (\<lparr>set_type = PStr ''T'', set_name = None, template_attribute = [0, 2],
                    template_invariant = [1],
                    objects = [(PTuple [PTuple [PInt 0, PInt 0, PStr ''X'']], [0, 2, 1]),
                               (PTuple [PTuple [PInt 0, PInt 0, PStr ''Y'']], [0, 2, 1])]\<rparr>,
                  [[(''count'', PInt 1), (''reprc'', PInt 19), (''value'', PList [PStr ''V'']),
                    (''label'', PStr ''A'')],
                   [(''count'', PInt 1), (''reprc'', PInt 19), (''value'', PNone),
                    (''label'', PStr ''I'')],
                   [(''count'', PInt 1), (''reprc'', PInt 19), (''value'', PNone),
                    (''label'', PStr ''B'')]],
                  []))"
  by code_simp

end
